theory Spec2Isabelle
  imports Main "HOL-Library.Word" "HOL-Library.Sublist"
begin

unbundle bit_operations_syntax

section \<open>go-annotate: the asynchronous event logger (package log)\<close>

text \<open>
  A shallow embedding of the logging runtime of go-annotate: the value formatter
  \<open>format\<close>, the emitter API (\<open>Log\<close>, \<open>LogEnter\<close>, \<open>LogLeave\<close>), the text encoder
  (\<open>FuncCall.String\<close>, \<open>formatEvent\<close>), the destination classifier
  (\<open>isSocketAddress\<close>) and the two background workers (\<open>processLogQueueToFile\<close>,
  \<open>manageConnectionAndSend\<close>).

  Go strings and the bytes written to a destination are byte sequences, modelled as
  \<open>string\<close> (a list of 8-bit characters); the byte slices and arrays handed to
  \<open>format\<close> are lists of 8-bit words.
\<close>

subsection \<open>Strings\<close>

text \<open>\<open>strings.HasPrefix\<close> and \<open>strings.Contains\<close> (a substring occurs at some offset).\<close>

definition HasPrefix :: "string \<Rightarrow> string \<Rightarrow> bool" where
  "HasPrefix s p = (take (length p) s = p)"

fun Contains :: "string \<Rightarrow> string \<Rightarrow> bool" where
  "Contains [] substr = (substr = [])"
| "Contains (c # s) substr = (HasPrefix (c # s) substr \<or> Contains s substr)"

text \<open>\<open>strings.Join\<close>: nothing for no element, the element itself for one, otherwise the
  first element followed by separator and element for each further one.\<close>

fun Join :: "string list \<Rightarrow> string \<Rightarrow> string" where
  "Join [] sep = []"
| "Join [e] sep = e"
| "Join (e # es) sep = e @ concat (map (\<lambda>s. sep @ s) es)"

subsection \<open>Destination classification\<close>

text \<open>
  \<open>isSocketAddress\<close>: a target is a network socket when it contains a colon and neither
  a slash nor a backslash.
\<close>

definition isSocketAddress :: "string \<Rightarrow> bool" where
  "isSocketAddress addr =
     (Contains addr '':'' \<and> \<not> Contains addr ''/'' \<and> \<not> Contains addr [CHR 0x5C])"

text \<open>
  The network type chosen at the head of \<open>manageConnectionAndSend\<close>: a target with a
  path separator is dialled as a local domain socket, anything else over TCP.
\<close>

definition networkType :: "string \<Rightarrow> string" where
  "networkType logAddr =
     (if Contains logAddr ''/'' \<or> Contains logAddr [CHR 0x5C] then ''unix'' else ''tcp'')"

text \<open>
  The worker that \<open>init\<close> starts for the value of \<open>GO_ANNOTATE_LOG_TARGET\<close>: none but a
  discarding drain for the empty target, the socket worker for a socket address, the file
  worker for everything else.
\<close>

datatype sinkMode = Disabled | SocketMode | FileMode

definition initMode :: "string \<Rightarrow> sinkMode" where
  "initMode logTarget =
     (if logTarget = [] then Disabled
      else if isSocketAddress logTarget then SocketMode
      else FileMode)"

subsection \<open>Number formatting (strconv)\<close>

text \<open>
  \<open>strconv.FormatUint(n, 10)\<close> and \<open>strconv.FormatInt(i, 10)\<close>: the decimal digits, most
  significant first, with a minus sign for a negative number.
\<close>

definition digitChar :: "nat \<Rightarrow> char" where
  "digitChar d = ''0123456789'' ! d"

fun digitsOf :: "nat \<Rightarrow> string" where
  "digitsOf n = (if n < 10 then [digitChar n] else digitsOf (n div 10) @ [digitChar (n mod 10)])"

declare digitsOf.simps [simp del]

definition FormatUint :: "nat \<Rightarrow> string" where
  "FormatUint n = digitsOf n"

definition FormatInt :: "int \<Rightarrow> string" where
  "FormatInt i = (if i < 0 then CHR ''-'' # digitsOf (nat (- i)) else digitsOf (nat i))"

text \<open>
  A floating-point value is its sign, an integer mantissa and a binary exponent (the value
  is \<open>mant * 2 ^ exp\<close>), or an infinity, or not a number. \<open>strconv.FormatFloat(v, 'f',
  prec, _)\<close> prints the exact value rounded to \<open>prec\<close> decimals, ties to even, with at
  least one digit before the point; the sign is kept for negative zero.
\<close>

datatype float = Finite bool nat int | Infinity bool | NaN

definition roundHalfEven :: "nat \<Rightarrow> nat \<Rightarrow> nat" where
  "roundHalfEven num den =
     (let q = num div den; r = num mod den
      in if den < 2 * r \<or> (2 * r = den \<and> odd q) then q + 1 else q)"

definition scaledDecimal :: "nat \<Rightarrow> int \<Rightarrow> nat \<Rightarrow> nat" where
  "scaledDecimal mant ex prec =
     (if 0 \<le> ex then mant * 2 ^ nat ex * 10 ^ prec
      else roundHalfEven (mant * 10 ^ prec) (2 ^ nat (- ex)))"

definition padZeros :: "nat \<Rightarrow> string \<Rightarrow> string" where
  "padZeros w s = replicate (w - length s) CHR ''0'' @ s"

definition FormatFloat :: "float \<Rightarrow> nat \<Rightarrow> string" where
  "FormatFloat v prec =
     (case v of
        NaN \<Rightarrow> ''NaN''
      | Infinity neg \<Rightarrow> (if neg then ''-Inf'' else ''+Inf'')
      | Finite neg mant ex \<Rightarrow>
          (let n = scaledDecimal mant ex prec
           in (if neg then ''-'' else [])
              @ digitsOf (n div 10 ^ prec)
              @ (if 0 < prec then CHR ''.'' # padZeros prec (digitsOf (n mod 10 ^ prec)) else [])))"

subsection \<open>Hexadecimal (encoding/hex)\<close>

definition lowerhex :: "nat \<Rightarrow> char" where
  "lowerhex d = ''0123456789abcdef'' ! d"

definition hexByte :: "8 word \<Rightarrow> string" where
  "hexByte b = [lowerhex (unat (drop_bit 4 b)), lowerhex (unat (b AND 0xF))]"

definition hexEncode :: "8 word list \<Rightarrow> string" where
  "hexEncode src = concat (map hexByte src)"

text \<open>\<open>appendHex\<close>: nothing is appended for an empty source.\<close>

definition appendHex :: "string \<Rightarrow> 8 word list \<Rightarrow> string" where
  "appendHex dst src = (if length src = 0 then dst else dst @ hexEncode src)"

fun hexDigitsOf :: "nat \<Rightarrow> string" where
  "hexDigitsOf n = (if n < 16 then [lowerhex n] else hexDigitsOf (n div 16) @ [lowerhex (n mod 16)])"

declare hexDigitsOf.simps [simp del]

subsection \<open>Quoting (the verb \<open>%q\<close> of fmt, that is \<open>strconv.Quote\<close>)\<close>

text \<open>
  \<open>utf8.DecodeRuneInString\<close>: the first rune of a non-empty string and its width in
  bytes; an invalid or truncated encoding decodes to \<open>RuneError\<close> with width one.
\<close>

definition RuneError :: nat where
  "RuneError = 0xFFFD"

definition leadByte :: "nat \<Rightarrow> (nat \<times> nat \<times> nat) option" where
  "leadByte b =
     (if 0xC2 \<le> b \<and> b \<le> 0xDF then Some (2, 0x80, 0xBF)
      else if b = 0xE0 then Some (3, 0xA0, 0xBF)
      else if b = 0xED then Some (3, 0x80, 0x9F)
      else if 0xE1 \<le> b \<and> b \<le> 0xEF then Some (3, 0x80, 0xBF)
      else if b = 0xF0 then Some (4, 0x90, 0xBF)
      else if 0xF1 \<le> b \<and> b \<le> 0xF3 then Some (4, 0x80, 0xBF)
      else if b = 0xF4 then Some (4, 0x80, 0x8F)
      else None)"

definition DecodeRuneInString :: "string \<Rightarrow> nat \<times> nat" where
  "DecodeRuneInString s =
     (case map of_char s of
        [] \<Rightarrow> (RuneError, 0)
      | s0 # t \<Rightarrow>
          if s0 < 0x80 then (s0, 1)
          else (case leadByte s0 of
             None \<Rightarrow> (RuneError, 1)
           | Some (sz, lo, hi) \<Rightarrow>
               if length t + 1 < sz then (RuneError, 1)
               else let s1 = t ! 0 in
               if s1 < lo \<or> hi < s1 then (RuneError, 1)
               else if sz \<le> 2 then ((s0 mod 32) * 64 + s1 mod 64, 2)
               else let s2 = t ! 1 in
               if s2 < 0x80 \<or> 0xBF < s2 then (RuneError, 1)
               else if sz \<le> 3 then ((s0 mod 16) * 4096 + (s1 mod 64) * 64 + s2 mod 64, 3)
               else let s3 = t ! 2 in
               if s3 < 0x80 \<or> 0xBF < s3 then (RuneError, 1)
               else ((s0 mod 8) * 262144 + (s1 mod 64) * 4096 + (s2 mod 64) * 64 + s3 mod 64, 4)))"

text \<open>
  \<open>strconv.IsPrint\<close>: decided by ranges up to U+00FF and by the Unicode tables of the
  library above; the tables are the parameter \<open>tbl\<close>.
\<close>

definition IsPrint :: "(nat \<Rightarrow> bool) \<Rightarrow> nat \<Rightarrow> bool" where
  "IsPrint tbl r =
     (if r \<le> 0xFF then (0x20 \<le> r \<and> r \<le> 0x7E) \<or> (0xA1 \<le> r \<and> r \<noteq> 0xAD)
      else tbl r)"

text \<open>A table with no printable rune above U+00FF, for evaluating on ASCII strings.\<close>

definition asciiTable :: "nat \<Rightarrow> bool" where
  "asciiTable r = False"

definition ValidRune :: "nat \<Rightarrow> bool" where
  "ValidRune r = (r < 0xD800 \<or> (0xDFFF < r \<and> r \<le> 0x10FFFF))"

definition hexFixed :: "nat \<Rightarrow> nat \<Rightarrow> string" where
  "hexFixed w r = map (\<lambda>i. lowerhex ((r div 16 ^ i) mod 16)) (rev [0..<w])"

text \<open>
  \<open>appendEscapedRune\<close> for the double quote: \<open>enc\<close> is the UTF-8 encoding of the rune
  (the bytes it was decoded from).
\<close>

definition appendEscapedRune :: "(nat \<Rightarrow> bool) \<Rightarrow> nat \<Rightarrow> string \<Rightarrow> string" where
  "appendEscapedRune tbl r enc =
     (if r = 0x22 \<or> r = 0x5C then [CHR 0x5C, char_of r]
      else if IsPrint tbl r then enc
      else if r = 7 then [CHR 0x5C, CHR ''a'']
      else if r = 8 then [CHR 0x5C, CHR ''b'']
      else if r = 12 then [CHR 0x5C, CHR ''f'']
      else if r = 10 then [CHR 0x5C, CHR ''n'']
      else if r = 13 then [CHR 0x5C, CHR ''r'']
      else if r = 9 then [CHR 0x5C, CHR ''t'']
      else if r = 11 then [CHR 0x5C, CHR ''v'']
      else if r < 0x20 \<or> r = 0x7F then [CHR 0x5C, CHR ''x''] @ hexFixed 2 r
      else if \<not> ValidRune r then [CHR 0x5C, CHR ''u''] @ hexFixed 4 RuneError
      else if r < 0x10000 then [CHR 0x5C, CHR ''u''] @ hexFixed 4 r
      else [CHR 0x5C, CHR ''U''] @ hexFixed 8 r)"

lemma DecodeRuneInString_width:
  "s \<noteq> [] \<Longrightarrow> 0 < snd (DecodeRuneInString s)"
  by (cases s) (simp_all add: DecodeRuneInString_def Let_def split: option.split prod.split)

text \<open>
  The loop of \<open>strconv.Quote\<close>: \<open>quoteRune\<close> is what one iteration appends for the rune
  at the head of the string, \<open>quoteBody\<close> the loop over the string.
\<close>

definition quoteRune :: "(nat \<Rightarrow> bool) \<Rightarrow> string \<Rightarrow> string" where
  "quoteRune tbl s =
     (let (r, width) = DecodeRuneInString s in
        if width = 1 \<and> r = RuneError
        then [CHR 0x5C, CHR ''x''] @ hexFixed 2 (of_char (hd s))
        else appendEscapedRune tbl r (take width s))"

function quoteBody :: "(nat \<Rightarrow> bool) \<Rightarrow> string \<Rightarrow> string" where
  "quoteBody tbl s =
     (if s = [] then []
      else quoteRune tbl s @ quoteBody tbl (drop (snd (DecodeRuneInString s)) s))"
  by pat_completeness auto
termination
proof (relation "measure (\<lambda>(tbl, s). length s)")
  show "wf (measure (\<lambda>(tbl, s). length s))" by simp
next
  fix tbl :: "nat \<Rightarrow> bool" and s :: string
  assume "s \<noteq> []"
  then show "((tbl, drop (snd (DecodeRuneInString s)) s), (tbl, s)) \<in> measure (\<lambda>(tbl, s). length s)"
    using DecodeRuneInString_width [of s] by simp
qed

declare quoteBody.simps [simp del]

definition Quote :: "(nat \<Rightarrow> bool) \<Rightarrow> string \<Rightarrow> string" where
  "Quote tbl s = CHR 0x22 # quoteBody tbl s @ [CHR 0x22]"

subsection \<open>The formatter\<close>

text \<open>
  The values a producer hands to \<open>format\<close> as \<open>any\<close>. There is one constructor for
  every dynamic type that the type switch of \<open>format\<close> names, one for the values that
  implement \<open>error\<close>, and one for everything else, described by what package reflect
  reports about it.

  \<^item> Integers are machine words (\<open>int\<close> and \<open>uint\<close> are 64 bits wide); fixed-size
    arrays are lists of their length.
  \<^item> \<open>GoBytes []\<close> is both the nil and the empty byte slice (the code only asks for the
    length).
  \<^item> \<open>GoPtrArray32Uint8 None\<close> is the nil pointer of type \<open>*[32]uint8\<close>.
  \<^item> \<open>GoError r\<close> is a value whose dynamic type implements \<open>error\<close> and is none of the
    types above; \<open>r\<close> is the outcome of calling its \<open>Error\<close> method: \<open>Some msg\<close> when
    the method returns \<open>msg\<close>, \<open>None\<close> when the call panics, as it does for a nil
    pointer of a type whose \<open>Error\<close> method reads a field of its receiver.
  \<^item> \<open>RPtr None\<close> is a nil pointer of any other type, \<open>RPtr (Some a)\<close> a pointer with
    address \<open>a\<close>; \<open>RString s\<close> is a value of a defined string type without methods
    (for example \<open>type Label string\<close>), which the verb \<open>%v\<close> prints as it is;
    \<open>ROther s\<close> is a value of any remaining kind that \<open>%v\<close> prints as \<open>s\<close>.
\<close>

datatype reflected =
    RPtr "nat option"
  | RSlice nat string
  | RArray nat string
  | RMap nat
  | RChan string
  | RFunc string
  | RString string
  | ROther string

datatype goValue =
    GoNil
  | GoInt "64 word"
  | GoInt8 "8 word"
  | GoInt16 "16 word"
  | GoInt32 "32 word"
  | GoInt64 "64 word"
  | GoUint "64 word"
  | GoUint8 "8 word"
  | GoUint16 "16 word"
  | GoUint32 "32 word"
  | GoUint64 "64 word"
  | GoFloat32 float
  | GoFloat64 float
  | GoBytes "8 word list"
  | GoBytesList "8 word list list"
  | GoArray8Uint32 "32 word list"
  | GoArray32Uint8 "8 word list"
  | GoPtrArray32Uint8 "8 word list option"
  | GoString string
  | GoBool bool
  | GoError "string option"
  | GoOther reflected

datatype failure = ErrorMethodPanic

text \<open>The bytes of a \<open>uint32\<close> in memory, least significant first (little-endian layout).\<close>

definition uint32Bytes :: "32 word \<Rightarrow> 8 word list" where
  "uint32Bytes w = [ucast w, ucast (drop_bit 8 w), ucast (drop_bit 16 w), ucast (drop_bit 24 w)]"

text \<open>The loop over a \<open>[][]byte\<close>: a bar before every segment but the first.\<close>

fun appendHexSegments :: "string \<Rightarrow> nat \<Rightarrow> 8 word list list \<Rightarrow> string" where
  "appendHexSegments buf i [] = buf"
| "appendHexSegments buf i (b # bs) =
     appendHexSegments (appendHex (if 0 < i then buf @ ''|'' else buf) b) (Suc i) bs"

text \<open>The inner switch on the reflected kind, in the default arm of the type switch.\<close>

fun formatReflected :: "reflected \<Rightarrow> string" where
  "formatReflected (RPtr None) = ''<nil>''"
| "formatReflected (RPtr (Some a)) = ''0x'' @ hexDigitsOf a"
| "formatReflected (RSlice n el) = ''['' @ digitsOf n @ '']'' @ el"
| "formatReflected (RArray n el) = ''['' @ digitsOf n @ '']'' @ el"
| "formatReflected (RMap n) = ''map['' @ digitsOf n @ '']''"
| "formatReflected (RChan el) = ''chan('' @ el @ '')''"
| "formatReflected (RFunc ty) = ''func('' @ ty @ '')''"
| "formatReflected (RString s) = s"
| "formatReflected (ROther s) = s"

text \<open>
  \<open>format\<close>. The result is \<open>Inr\<close> the string, or \<open>Inl\<close> when the call of the value's
  \<open>Error\<close> method panics. \<open>tbl\<close> is the table of printable runes used by \<open>%q\<close>.
\<close>

fun format :: "(nat \<Rightarrow> bool) \<Rightarrow> goValue \<Rightarrow> failure + string" where
  "format tbl GoNil = Inr []"
| "format tbl (GoInt v) = Inr (FormatInt (sint v))"
| "format tbl (GoInt8 v) = Inr (FormatInt (sint v))"
| "format tbl (GoInt16 v) = Inr (FormatInt (sint v))"
| "format tbl (GoInt32 v) = Inr (FormatInt (sint v))"
| "format tbl (GoInt64 v) = Inr (FormatInt (sint v))"
| "format tbl (GoUint v) = Inr (FormatUint (unat v))"
| "format tbl (GoUint8 v) = Inr (FormatUint (unat v))"
| "format tbl (GoUint16 v) = Inr (FormatUint (unat v))"
| "format tbl (GoUint32 v) = Inr (FormatUint (unat v))"
| "format tbl (GoUint64 v) = Inr (FormatUint (unat v))"
| "format tbl (GoFloat32 v) = Inr (FormatFloat v 6)"
| "format tbl (GoFloat64 v) = Inr (FormatFloat v 6)"
| "format tbl (GoBytes v) = Inr (if length v = 0 then ''0x'' else appendHex ''0x'' v)"
| "format tbl (GoBytesList v) =
     Inr (if length v = 0 then ''0x'' else appendHexSegments ''0x'' 0 v)"
| "format tbl (GoArray8Uint32 v) = Inr (appendHex ''0x'' (concat (map uint32Bytes v)))"
| "format tbl (GoArray32Uint8 v) = Inr (appendHex ''0x'' v)"
| "format tbl (GoPtrArray32Uint8 p) =
     Inr (case p of None \<Rightarrow> ''<nil>'' | Some v \<Rightarrow> appendHex ''0x'' v)"
| "format tbl (GoString v) = Inr (Quote tbl v)"
| "format tbl (GoBool v) = Inr (if v then ''1'' else ''0'')"
| "format tbl (GoError r) =
     (case r of None \<Rightarrow> Inl ErrorMethodPanic | Some msg \<Rightarrow> Inr (Quote tbl msg))"
| "format tbl (GoOther rv) = Inr (formatReflected rv)"

subsection \<open>Events and their encodings\<close>

record FuncCall =
  Name :: string
  Args :: "string list"
  Results :: "string list"
  Time :: int

definition FuncCall_String :: "FuncCall \<Rightarrow> string" where
  "FuncCall_String f =
     (if length (Results f) = 0
      then Name f @ ''('' @ Join (Args f) '', '' @ '')''
      else Name f @ ''('' @ Join (Args f) '', '' @ '') = ('' @ Join (Results f) '', '' @ '')'')"

datatype Format = FormatJSON | FormatCBOR | FormatText | FormatDebug | FormatOther nat

definition PairFunctionName :: string where "PairFunctionName = ''pair''"
definition separator :: string where "separator = ''_''"
definition EnterSuffix :: string where "EnterSuffix = ''Enter''"
definition LeaveSuffix :: string where "LeaveSuffix = ''Leave''"

datatype WeakTerm = WeakTerm string string string "WeakTerm list"

record TimedEvent =
  teTime :: int
  teEvent :: WeakTerm

definition toTimedEvent :: "FuncCall \<Rightarrow> TimedEvent" where
  "toTimedEvent f =
     \<lparr> teTime = Time f,
       teEvent = WeakTerm PairFunctionName ''function'' []
         [ WeakTerm (Name f) ''function'' [] (map (\<lambda>a. WeakTerm [] ''constant'' a []) (Args f)),
           WeakTerm PairFunctionName ''function'' []
             (map (\<lambda>r. WeakTerm [] ''constant'' r []) (Results f)) ] \<rparr>"

text \<open>
  What the process does that can be observed from outside, in order: the diagnostics it
  prints with \<open>log.Printf\<close>, the dials, the timers it arms, the events the worker takes
  from the channel, and the writes to the destination with their outcome.
\<close>

datatype diag =
    SocketBufferFull string
  | EventBufferFull string
  | FileWriteFailed
  | TargetNotSet
  | ConnectionFailed string int
  | BacklogOverflow nat nat
  | BufferedDuringFailure nat
  | ConnectionEstablished string nat
  | KeepAliveFailed
  | KeepAlivePeriodFailed
  | BacklogWriteFailed nat
  | BacklogSent string
  | SocketWriteFailed
  | SentEvents nat
  | FormatError

datatype effect =
    Printf diag
  | DialTimeout string string int bool
  | After int
  | Receive FuncCall
  | Write string bool
  | SetKeepAlive bool
  | SetKeepAlivePeriod int bool
  | Close

text \<open>
  The marshallers of encoding/json and of the CBOR library and the verb \<open>%#v\<close> of fmt
  are parameters: \<open>None\<close> is a marshalling error.
\<close>

record encoders =
  jsonMarshal :: "TimedEvent \<Rightarrow> string option"
  cborMarshal :: "TimedEvent \<Rightarrow> string option"
  debugSprintf :: "FuncCall \<Rightarrow> string"

text \<open>
  \<open>formatEvent\<close>: the bytes of one event, \<open>None\<close> for the nil slice, and what it logs.
  In the JSON arm the error of the marshaller is assigned to a variable of that arm only, so
  a failure there returns nil without a diagnostic.
\<close>

fun formatEvent :: "encoders \<Rightarrow> FuncCall \<Rightarrow> Format \<Rightarrow> string option \<times> effect list" where
  "formatEvent enc fn FormatText = (Some (FuncCall_String fn @ [CHR 0x0A]), [])"
| "formatEvent enc fn FormatJSON =
     (case jsonMarshal enc (toTimedEvent fn) of
        Some jsonBytes \<Rightarrow> (Some (jsonBytes @ [CHR 0x0A]), [])
      | None \<Rightarrow> (None, []))"
| "formatEvent enc fn FormatCBOR =
     (case cborMarshal enc (toTimedEvent fn) of
        Some bytes \<Rightarrow> (Some bytes, [])
      | None \<Rightarrow> (None, [Printf FormatError]))"
| "formatEvent enc fn FormatDebug = (Some (debugSprintf enc fn), [])"
| "formatEvent enc fn (FormatOther n) = (None, [])"

subsection \<open>The logger and the emitter API\<close>

text \<open>
  The logger. \<open>eventBuffer\<close> is the content of the buffered channel, oldest first, and
  \<open>bufferSize\<close> its capacity.
\<close>

record Logger =
  counter :: "64 word"
  logFormat :: Format
  eventBuffer :: "FuncCall list"
  bufferSize :: nat
  sentCount :: "64 word"

definition NewLogger :: "string \<Rightarrow> Format \<Rightarrow> Logger" where
  "NewLogger logTarget fmt =
     \<lparr> counter = 0, logFormat = fmt, eventBuffer = [],
       bufferSize = (if logTarget \<noteq> [] \<and> isSocketAddress logTarget then 100000 else 10000),
       sentCount = 0 \<rparr>"

definition ID :: "'a Logger_scheme \<Rightarrow> 64 word \<times> 'a Logger_scheme" where
  "ID l = (counter l + 1, l\<lparr>counter := counter l + 1\<rparr>)"

text \<open>
  \<open>Log\<close>: a \<open>select\<close> with a send and a default arm. The send is taken when the channel
  has room; otherwise the default arm prints one of two diagnostics and the event is gone.
\<close>

definition Log :: "string \<Rightarrow> 'a Logger_scheme \<Rightarrow> FuncCall \<Rightarrow> 'a Logger_scheme \<times> effect list" where
  "Log logTarget l fn =
     (if length (eventBuffer l) < bufferSize l
      then (l\<lparr>eventBuffer := eventBuffer l @ [fn]\<rparr>, [])
      else (l, [Printf (if logTarget \<noteq> [] \<and> isSocketAddress logTarget
                        then SocketBufferFull (Name fn)
                        else EventBufferFull (Name fn))]))"

text \<open>The loops of \<open>LogEnter\<close> and \<open>LogLeave\<close> that append the formatted values.\<close>

fun appendFormatted :: "(nat \<Rightarrow> bool) \<Rightarrow> string list \<Rightarrow> goValue list \<Rightarrow> failure + string list" where
  "appendFormatted tbl formatted [] = Inr formatted"
| "appendFormatted tbl formatted (arg # rest) =
     (case format tbl arg of
        Inl e \<Rightarrow> Inl e
      | Inr s \<Rightarrow> appendFormatted tbl (formatted @ [s]) rest)"

text \<open>\<open>now\<close> is the reading of the clock.\<close>

definition LogEnter ::
  "(nat \<Rightarrow> bool) \<Rightarrow> string \<Rightarrow> int \<Rightarrow> 'a Logger_scheme \<Rightarrow> 64 word \<Rightarrow> string \<Rightarrow> goValue list
     \<Rightarrow> failure + ('a Logger_scheme \<times> effect list)" where
  "LogEnter tbl logTarget now l ident name args =
     (case appendFormatted tbl [FormatUint (unat ident)] args of
        Inl e \<Rightarrow> Inl e
      | Inr formattedArgs \<Rightarrow>
          Inr (Log logTarget l
                 \<lparr> Name = name @ separator @ EnterSuffix, Args = formattedArgs,
                   Results = [], Time = now \<rparr>))"

definition LogLeave ::
  "(nat \<Rightarrow> bool) \<Rightarrow> string \<Rightarrow> int \<Rightarrow> 'a Logger_scheme \<Rightarrow> 64 word \<Rightarrow> string \<Rightarrow> goValue list
     \<Rightarrow> goValue list \<Rightarrow> failure + ('a Logger_scheme \<times> effect list)" where
  "LogLeave tbl logTarget now l ident name args results =
     (case appendFormatted tbl [FormatUint (unat ident)] args of
        Inl e \<Rightarrow> Inl e
      | Inr formattedArgs \<Rightarrow>
          (case appendFormatted tbl [] results of
             Inl e \<Rightarrow> Inl e
           | Inr formattedResults \<Rightarrow>
               Inr (Log logTarget l
                      \<lparr> Name = name @ separator @ LeaveSuffix, Args = formattedArgs,
                        Results = formattedResults, Time = now \<rparr>)))"

subsection \<open>Projections of a trace\<close>

definition writesOf :: "effect list \<Rightarrow> (string \<times> bool) list" where
  "writesOf es = concat (map (\<lambda>e. case e of Write b ok \<Rightarrow> [(b, ok)] | _ \<Rightarrow> []) es)"

definition receivesOf :: "effect list \<Rightarrow> FuncCall list" where
  "receivesOf es = concat (map (\<lambda>e. case e of Receive fn \<Rightarrow> [fn] | _ \<Rightarrow> []) es)"

definition printsOf :: "effect list \<Rightarrow> diag list" where
  "printsOf es = concat (map (\<lambda>e. case e of Printf d \<Rightarrow> [d] | _ \<Rightarrow> []) es)"

definition dialsOf :: "effect list \<Rightarrow> (int \<times> bool) list" where
  "dialsOf es = concat (map (\<lambda>e. case e of DialTimeout nt a t ok \<Rightarrow> [(t, ok)] | _ \<Rightarrow> []) es)"

definition waitsOf :: "effect list \<Rightarrow> int list" where
  "waitsOf es = concat (map (\<lambda>e. case e of After d \<Rightarrow> [d] | _ \<Rightarrow> []) es)"

definition isReceive :: "effect \<Rightarrow> bool" where
  "isReceive e = (case e of Receive fn \<Rightarrow> True | _ \<Rightarrow> False)"

text \<open>The bytes of the writes that succeeded, in order.\<close>

definition okWrites :: "effect list \<Rightarrow> string list" where
  "okWrites es = map fst (filter snd (writesOf es))"

text \<open>The bytes of an event in a format (the first component of \<open>formatEvent\<close>).\<close>

definition encode :: "encoders \<Rightarrow> Format \<Rightarrow> FuncCall \<Rightarrow> string option" where
  "encode enc fmt fn = fst (formatEvent enc fn fmt)"

text \<open>An event without arguments and results, for runs on concrete inputs.\<close>

definition ev :: "string \<Rightarrow> FuncCall" where
  "ev name = \<lparr> Name = name, Args = [], Results = [], Time = 0 \<rparr>"

text \<open>Marshallers that always fail, for runs in text format, which uses none of them.\<close>

definition textOnly :: encoders where
  "textOnly = \<lparr> jsonMarshal = (\<lambda>e. None), cborMarshal = (\<lambda>e. None), debugSprintf = (\<lambda>f. []) \<rparr>"

subsection \<open>The file worker\<close>

text \<open>
  A destination accepts or refuses each write. The outcomes of the writes on one file or
  connection are a list, consumed one per write; a write beyond the list succeeds.
\<close>

definition writeTo :: "bool list \<Rightarrow> bool \<times> bool list" where
  "writeTo outcomes = (case outcomes of [] \<Rightarrow> (True, []) | ok # rest \<Rightarrow> (ok, rest))"

text \<open>The outcomes of the first \<open>n\<close> writes on a destination.\<close>

fun outcomesFor :: "nat \<Rightarrow> bool list \<Rightarrow> bool list" where
  "outcomesFor 0 outcomes = []"
| "outcomesFor (Suc n) outcomes = fst (writeTo outcomes) # outcomesFor n (snd (writeTo outcomes))"

text \<open>The bytes handed to \<open>Write\<close>: the nil slice is written as no bytes.\<close>

definition bytesOf :: "string option \<Rightarrow> string" where
  "bytesOf b = (case b of None \<Rightarrow> [] | Some bs \<Rightarrow> bs)"

text \<open>
  \<open>processLogQueueToFile\<close>: the loop over the channel. Every event is encoded and written
  once; a failed write is logged and the loop goes on. The channel is never closed, so
  after the last event the worker waits for more.
\<close>

fun fileLoop :: "encoders \<Rightarrow> Format \<Rightarrow> bool list \<Rightarrow> FuncCall list \<Rightarrow> effect list" where
  "fileLoop enc fmt outcomes [] = []"
| "fileLoop enc fmt outcomes (fn # rest) =
     Receive fn # snd (formatEvent enc fn fmt)
       @ Write (bytesOf (fst (formatEvent enc fn fmt))) (fst (writeTo outcomes))
       # (if fst (writeTo outcomes) then [] else [Printf FileWriteFailed])
       @ fileLoop enc fmt (snd (writeTo outcomes)) rest"

definition processLogQueueToFile ::
  "encoders \<Rightarrow> bool list \<Rightarrow> 'a Logger_scheme \<Rightarrow> 'a Logger_scheme \<times> effect list" where
  "processLogQueueToFile enc outcomes l =
     (l\<lparr>eventBuffer := []\<rparr>, fileLoop enc (logFormat l) outcomes (eventBuffer l))"

subsection \<open>The socket worker\<close>

text \<open>Durations are nanoseconds in a signed 64-bit integer; \<open>wrap64\<close> is its wrap-around.\<close>

definition wrap64 :: "int \<Rightarrow> int" where
  "wrap64 x = (x + 2 ^ 63) mod 2 ^ 64 - 2 ^ 63"

definition second :: int where "second = 1000000000"
definition retryBase :: int where "retryBase = second"
definition maxRetry :: int where "maxRetry = 30 * second"
definition dialTimeout :: int where "dialTimeout = 5 * second"
definition keepAlivePeriod :: int where "keepAlivePeriod = 30 * second"

text \<open>
  The state of the worker: the logger and the two variables that live across the rounds of
  its loop.
\<close>

record worker = Logger +
  eventBacklog :: "FuncCall list"
  currentRetry :: int

definition startWorker :: "Logger \<Rightarrow> worker" where
  "startWorker l =
     \<lparr> counter = counter l, logFormat = logFormat l, eventBuffer = eventBuffer l,
       bufferSize = bufferSize l, sentCount = sentCount l,
       eventBacklog = [], currentRetry = retryBase \<rparr>"

text \<open>
  What the environment does in one round of the loop. \<open>DialFail n\<close>: the dial fails and
  \<open>n\<close> events arrive from the channel before the retry timer fires (fewer when the channel
  holds fewer). \<open>DialOk c\<close>: the dial succeeds; \<open>c\<close> says how the two keep-alive calls and
  the writes on the connection end.
\<close>

record conn =
  keepAliveOk :: bool
  keepAlivePeriodOk :: bool
  writes :: "bool list"

datatype dialResult = DialFail nat | DialOk conn

text \<open>
  The drain loop of a failed round. Each received event is appended to the backlog; a
  backlog longer than 10000 loses its 2000 oldest events. \<open>n\<close> counts the events
  still to arrive before the timer.
\<close>

definition drainDone :: "worker \<Rightarrow> nat \<Rightarrow> worker \<times> effect list" where
  "drainDone w drainCount =
     (w, if 0 < drainCount then [Printf (BufferedDuringFailure drainCount)] else [])"

definition appendBacklog :: "FuncCall list \<Rightarrow> FuncCall \<Rightarrow> FuncCall list \<times> effect list" where
  "appendBacklog backlog fn =
     (if 10000 < length (backlog @ [fn])
      then (drop 2000 (backlog @ [fn]),
            [Printf (BacklogOverflow 2000 (length (drop 2000 (backlog @ [fn]))))])
      else (backlog @ [fn], []))"

fun drainLoop :: "nat \<Rightarrow> FuncCall list \<Rightarrow> worker \<Rightarrow> nat \<Rightarrow> worker \<times> effect list" where
  "drainLoop 0 queue w drainCount = drainDone (w\<lparr>eventBuffer := queue\<rparr>) drainCount"
| "drainLoop (Suc n) [] w drainCount = drainDone (w\<lparr>eventBuffer := []\<rparr>) drainCount"
| "drainLoop (Suc n) (fn # queue) w drainCount =
     (case drainLoop n queue
             (w\<lparr>eventBacklog := fst (appendBacklog (eventBacklog w) fn)\<rparr>) (drainCount + 1) of
        (w', es) \<Rightarrow> (w', Receive fn # snd (appendBacklog (eventBacklog w) fn) @ es))"

text \<open>
  The failed round: the diagnostic, the timer for the current delay, the drain loop, and
  the doubling of the delay up to the maximum.
\<close>

definition dialFailed :: "string \<Rightarrow> nat \<Rightarrow> worker \<Rightarrow> worker \<times> effect list" where
  "dialFailed logAddr n w =
     (case drainLoop n (eventBuffer w) w 0 of
        (w1, es) \<Rightarrow>
          (w1\<lparr>currentRetry :=
                 (if maxRetry < wrap64 (currentRetry w1 * 2) then maxRetry
                  else wrap64 (currentRetry w1 * 2))\<rparr>,
           [DialTimeout (networkType logAddr) logAddr dialTimeout False,
            Printf (ConnectionFailed logAddr (currentRetry w)),
            After (currentRetry w)] @ es))"

text \<open>
  The loop over the backlog after a successful dial, from position \<open>i\<close>. An event that
  encodes to nil is skipped. The result is \<open>Some i\<close> when the write at position \<open>i\<close> fails
  (the connection is closed there), \<open>None\<close> when the loop runs to its end; with it come the
  outcomes left on the connection and the count of sent events.
\<close>

fun flushBacklog ::
  "encoders \<Rightarrow> Format \<Rightarrow> bool list \<Rightarrow> nat \<Rightarrow> FuncCall list \<Rightarrow> 64 word
     \<Rightarrow> nat option \<times> bool list \<times> 64 word \<times> effect list" where
  "flushBacklog enc fmt outcomes i [] sent = (None, outcomes, sent, [])"
| "flushBacklog enc fmt outcomes i (fn # rest) sent =
     (case formatEvent enc fn fmt of
        (None, logs) \<Rightarrow>
          (case flushBacklog enc fmt outcomes (i + 1) rest sent of
             (r, os, sent', es) \<Rightarrow> (r, os, sent', logs @ es))
      | (Some bytes, logs) \<Rightarrow>
          (if fst (writeTo outcomes)
           then (case flushBacklog enc fmt (snd (writeTo outcomes)) (i + 1) rest (sent + 1) of
                   (r, os, sent', es) \<Rightarrow> (r, os, sent', logs @ Write bytes True # es))
           else (Some i, snd (writeTo outcomes), sent,
                 logs @ [Write bytes False, Printf (BacklogWriteFailed i), Close])))"

text \<open>
  The sending loop over the channel. The result says whether the loop was left by a failed
  write (\<open>True\<close>) or is waiting on the empty channel (\<open>False\<close>).
\<close>

fun sendingLoop ::
  "encoders \<Rightarrow> bool list \<Rightarrow> FuncCall list \<Rightarrow> worker \<Rightarrow> worker \<times> bool \<times> effect list" where
  "sendingLoop enc outcomes [] w = (w\<lparr>eventBuffer := []\<rparr>, False, [])"
| "sendingLoop enc outcomes (fn # queue) w =
     (case formatEvent enc fn (logFormat w) of
        (None, logs) \<Rightarrow>
          (case sendingLoop enc outcomes queue w of
             (w', failed, es) \<Rightarrow> (w', failed, Receive fn # logs @ es))
      | (Some bytes, logs) \<Rightarrow>
          (if fst (writeTo outcomes)
           then (case sendingLoop enc (snd (writeTo outcomes)) queue
                        (w\<lparr>sentCount := sentCount w + 1\<rparr>) of
                   (w', failed, es) \<Rightarrow>
                     (w', failed,
                      Receive fn # logs @ Write bytes True
                        # (if unat (sentCount w + 1) mod 1000 = 0
                           then [Printf (SentEvents (unat (sentCount w + 1)))] else [])
                        @ es))
           else (w\<lparr>eventBuffer := queue, eventBacklog := eventBacklog w @ [fn]\<rparr>, True,
                 Receive fn # logs @ [Write bytes False, Printf SocketWriteFailed])))"

text \<open>The keep-alive calls, made on a TCP connection only.\<close>

definition setKeepAlive :: "string \<Rightarrow> conn \<Rightarrow> effect list" where
  "setKeepAlive logAddr c =
     (if networkType logAddr = ''tcp''
      then SetKeepAlive (keepAliveOk c)
           # (if keepAliveOk c then [] else [Printf KeepAliveFailed])
           @ SetKeepAlivePeriod keepAlivePeriod (keepAlivePeriodOk c)
           # (if keepAlivePeriodOk c then [] else [Printf KeepAlivePeriodFailed])
      else [])"

text \<open>
  The round after a successful dial: the delay is reset, the backlog is flushed, and only
  then the sending loop starts. The result says whether the worker goes on to dial again
  (\<open>True\<close>) or is waiting in the sending loop (\<open>False\<close>).
\<close>

definition connected :: "encoders \<Rightarrow> string \<Rightarrow> conn \<Rightarrow> worker \<Rightarrow> worker \<times> bool \<times> effect list" where
  "connected enc logAddr c w =
     (case flushBacklog enc (logFormat w) (writes c) 0 (eventBacklog w) (sentCount w) of
        (Some i, os, sent, es) \<Rightarrow>
          (w\<lparr>currentRetry := retryBase, sentCount := sent,
              eventBacklog := drop i (eventBacklog w)\<rparr>, True,
           [DialTimeout (networkType logAddr) logAddr dialTimeout True,
            Printf (ConnectionEstablished logAddr (length (eventBacklog w)))]
           @ setKeepAlive logAddr c @ es @ [Close])
      | (None, os, sent, es) \<Rightarrow>
          (case sendingLoop enc os (eventBuffer w)
                  (w\<lparr>currentRetry := retryBase, sentCount := sent, eventBacklog := []\<rparr>) of
             (w', failed, es') \<Rightarrow>
               (w', failed,
                [DialTimeout (networkType logAddr) logAddr dialTimeout True,
                 Printf (ConnectionEstablished logAddr (length (eventBacklog w)))]
                @ setKeepAlive logAddr c @ es @ [Printf (BacklogSent logAddr)] @ es'
                @ (if failed then [Close] else []))))"

text \<open>The loop of the worker over the rounds of the environment.\<close>

fun connectLoop :: "encoders \<Rightarrow> string \<Rightarrow> dialResult list \<Rightarrow> worker \<Rightarrow> worker \<times> effect list" where
  "connectLoop enc logAddr [] w = (w, [])"
| "connectLoop enc logAddr (DialFail n # rounds) w =
     (case connectLoop enc logAddr rounds (fst (dialFailed logAddr n w)) of
        (w', es) \<Rightarrow> (w', snd (dialFailed logAddr n w) @ es))"
| "connectLoop enc logAddr (DialOk c # rounds) w =
     (case connected enc logAddr c w of
        (w1, again, es1) \<Rightarrow>
          (if again
           then (case connectLoop enc logAddr rounds w1 of (w', es) \<Rightarrow> (w', es1 @ es))
           else (w1, es1)))"

text \<open>
  \<open>manageConnectionAndSend\<close>: with no target the worker only discards what the channel
  holds; otherwise it starts with an empty backlog and the base delay.
\<close>

definition manageConnectionAndSend ::
  "encoders \<Rightarrow> string \<Rightarrow> dialResult list \<Rightarrow> Logger \<Rightarrow> worker \<times> effect list" where
  "manageConnectionAndSend enc logAddr rounds l =
     (if logAddr = []
      then ((startWorker l)\<lparr>eventBuffer := []\<rparr>,
            Printf TargetNotSet # map Receive (eventBuffer l))
      else connectLoop enc logAddr rounds (startWorker l))"

text \<open>
  The delays of the specification: one second at first, doubled after every failed dial
  in a row up to thirty seconds, and one second again after a successful dial. \<open>k\<close>
  counts the failed dials in a row so far.
\<close>

fun backoffSpec :: "nat \<Rightarrow> bool list \<Rightarrow> int list" where
  "backoffSpec k [] = []"
| "backoffSpec k (True # dials) = backoffSpec 0 dials"
| "backoffSpec k (False # dials) =
     min (2 ^ k * 1000000000) (30 * 1000000000) # backoffSpec (Suc k) dials"

section \<open>Properties\<close>

subsection \<open>The formatter\<close>

lemma digitsOf_nonempty: "digitsOf n \<noteq> []"
  by (subst digitsOf.simps) simp

lemma hexDigitsOf_nonempty: "hexDigitsOf n \<noteq> []"
  by (subst hexDigitsOf.simps) simp

lemma FormatInt_nonempty: "FormatInt i \<noteq> []"
  by (simp add: FormatInt_def digitsOf_nonempty)

lemma FormatFloat_nonempty: "FormatFloat v p \<noteq> []"
  by (cases v) (simp_all add: FormatFloat_def Let_def digitsOf_nonempty)

lemma Quote_nonempty: "Quote tbl s \<noteq> []"
  by (simp add: Quote_def)

lemma appendHex_nonempty: "dst \<noteq> [] \<Longrightarrow> appendHex dst src \<noteq> []"
  by (simp add: appendHex_def)

lemma appendHexSegments_nonempty: "buf \<noteq> [] \<Longrightarrow> appendHexSegments buf i bs \<noteq> []"
  by (induction bs arbitrary: buf i) (simp_all add: appendHex_nonempty)

lemma formatReflected_empty:
  "formatReflected rv = [] \<longleftrightarrow> rv = RString [] \<or> rv = ROther []"
proof (cases rv)
  case (RPtr p)
  then show ?thesis by (cases p) (simp_all add: hexDigitsOf_nonempty)
qed (simp_all add: digitsOf_nonempty)

lemma format_empty_iff:
  "format tbl v = Inr [] \<longleftrightarrow> v = GoNil \<or> v = GoOther (RString []) \<or> v = GoOther (ROther [])"
proof (cases v)
  case (GoPtrArray32Uint8 p)
  then show ?thesis by (cases p) (simp_all add: appendHex_nonempty)
next
  case (GoError r)
  then show ?thesis by (cases r) (simp_all add: Quote_nonempty)
next
  case (GoOther rv)
  then show ?thesis by (simp add: formatReflected_empty)
qed (simp_all add: FormatUint_def digitsOf_nonempty FormatInt_nonempty FormatFloat_nonempty
       Quote_nonempty appendHex_nonempty appendHexSegments_nonempty)

lemma format_returns: "v \<noteq> GoError None \<Longrightarrow> \<exists>s. format tbl v = Inr s"
  by (cases v) (auto split: option.split)

lemma format_GoInt_42: "format tbl (GoInt 42) = Inr ''42''"
  by (simp add: FormatInt_def digitsOf.simps digitChar_def)

lemma format_GoFloat64_pi: 
  "format tbl (GoFloat64 (Finite False 7074231776675438 (- 51))) = Inr ''3.141590''"
proof -
  have a: "scaledDecimal 7074231776675438 (- 51) 6 = 3141590"
    by (simp add: scaledDecimal_def roundHalfEven_def Let_def)
  have b: "digitsOf 3 = ''3''" "digitsOf 141590 = ''141590''"
    by (simp_all add: digitsOf.simps digitChar_def)
  show ?thesis
    by (simp add: FormatFloat_def a b padZeros_def)
qed

lemma format_GoString_hello:
  "format tbl (GoString ''hello'') = Inr ([CHR 0x22] @ ''hello'' @ [CHR 0x22])"
  by (simp add: Quote_def quoteBody.simps quoteRune_def DecodeRuneInString_def
        appendEscapedRune_def IsPrint_def RuneError_def)

lemma format_GoBytes_Hello:
  "format tbl (GoBytes [0x48, 0x65, 0x6c, 0x6c, 0x6f]) = Inr ''0x48656c6c6f''"
  by (simp add: appendHex_def hexEncode_def hexByte_def lowerhex_def drop_bit_eq_div)

lemma format_examples:
  "format tbl (GoInt 42) = Inr ''42''
   \<and> format tbl (GoFloat64 (Finite False 7074231776675438 (- 51))) = Inr ''3.141590''
   \<and> format tbl (GoString ''hello'') = Inr ([CHR 0x22] @ ''hello'' @ [CHR 0x22])
   \<and> format tbl (GoBool True) = Inr ''1''
   \<and> format tbl (GoBool False) = Inr ''0''
   \<and> format tbl (GoBytes [0x48, 0x65, 0x6c, 0x6c, 0x6f]) = Inr ''0x48656c6c6f''
   \<and> format tbl (GoBytes []) = Inr ''0x''
   \<and> format tbl GoNil = Inr []"
  using format_GoInt_42 format_GoFloat64_pi format_GoString_hello format_GoBytes_Hello
  by simp


text \<open>
  Claim C5. The formatter is total and never fails, with \<open>format(42) = "42"\<close>,
  \<open>format(3.14159) = "3.141590"\<close>, \<open>format("hello") = "\"hello\""\<close>,
  \<open>format(true) = "1"\<close>, \<open>format(false) = "0"\<close>, the bytes \<open>48 65 6c 6c 6f\<close> as
  \<open>"0x48656c6c6f"\<close>, the empty byte sequence as \<open>"0x"\<close> and \<open>format(nil) = ""\<close>.
  The listed outputs are those of the code (\<open>format_examples\<close>; the float is the double
  nearest to 3.14159), and \<open>format\<close> produces a string for every value but one kind
  (\<open>format_returns\<close>). For a value that reaches the \<open>error\<close> arm and whose \<open>Error\<close> method
  panics, a nil pointer of a type whose method reads its receiver for one, the call made
  by that arm panics and \<open>format\<close> produces no string. The nil-pointer guards of the
  \<open>*[32]uint8\<close> arm and of the reflect arm are not reached by such a value.
\<close>

theorem format_error_method_panic:
  "format tbl (GoError None) = Inl ErrorMethodPanic
   \<and> \<not> (\<exists>s. format tbl (GoError None) = Inr s)"
  by simp


text \<open>
  Claim C10, as stated: \<open>format\<close> returns the empty string only for the nil interface
  value. It does not hold: a value of a defined string type that holds the empty string
  falls through to the last arm, where the verb \<open>%v\<close> prints it as the empty string.
\<close>

theorem format_empty_counterexample:
  "format asciiTable (GoOther (RString [])) = Inr [] \<and> GoOther (RString []) \<noteq> GoNil"
  by simp


text \<open>
  Claim C10, amended. \<open>format\<close> returns the empty string for the nil interface value; a
  nil \<open>*[32]uint8\<close> and a nil pointer that reaches the reflect arm format as \<open>"<nil>"\<close>;
  and a value that formats as the empty string is either the nil interface value or one
  that the last arm prints with \<open>%v\<close> as the empty string. So no value matched by a
  named arm of the type switch, and no reflected pointer, slice, array, map, channel or
  function, formats as the empty string.
\<close>

theorem format_nil_and_nil_pointers:
  "format tbl GoNil = Inr []
   \<and> format tbl (GoPtrArray32Uint8 None) = Inr ''<nil>''
   \<and> format tbl (GoOther (RPtr None)) = Inr ''<nil>''
   \<and> (format tbl v = Inr [] \<longrightarrow>
        v = GoNil \<or> v = GoOther (RString []) \<or> v = GoOther (ROther []))"
  using format_empty_iff [of tbl v] by simp

theorem format_nil_and_nil_pointers_witness:
  "format asciiTable (GoOther (ROther [])) = Inr []
   \<and> (GoOther (ROther []) = GoNil \<or> GoOther (ROther []) = GoOther (RString [])
        \<or> GoOther (ROther []) = GoOther (ROther []))
   \<and> format asciiTable (GoPtrArray32Uint8 None) = Inr ''<nil>''"
  using format_nil_and_nil_pointers [of asciiTable "GoOther (ROther [])"] by simp


subsection \<open>The text encoding\<close>

lemma Join_Cons_Cons: "Join (a # b # cs) sep = a @ sep @ Join (b # cs) sep"
  by (cases cs) simp_all


text \<open>
  Claim C7. The text encoding of an event is \<open>name(args)\<close> when there are no results and
  \<open>name(args) = (results)\<close> otherwise, followed by a newline; arguments and results are
  joined by a comma and a space, that is, \<open>Join\<close> puts the separator between consecutive
  elements and nowhere else. Encoding as text logs nothing and always yields bytes.
\<close>

theorem formatEvent_text:
  "formatEvent enc fn FormatText =
     (Some ((if Results fn = []
             then Name fn @ ''('' @ Join (Args fn) '', '' @ '')''
             else Name fn @ ''('' @ Join (Args fn) '', '' @ '') = ('' @ Join (Results fn) '', '' @ '')'')
            @ [CHR 0x0A]), [])
   \<and> Join [] sep = [] \<and> Join [a] sep = a
   \<and> Join (a # b # cs) sep = a @ sep @ Join (b # cs) sep"
  by (simp add: FuncCall_String_def Join_Cons_Cons del: Join.simps(3))


lemma formatEvent_text_example:
  "formatEvent enc \<lparr>Name = ''test_func'', Args = [''1'', ''2''], Results = [''3''], Time = t\<rparr> FormatText
     = (Some (''test_func(1, 2) = (3)'' @ [CHR 0x0A]), [])
   \<and> formatEvent enc \<lparr>Name = ''test_func'', Args = [''1'', ''2''], Results = [], Time = t\<rparr> FormatText
     = (Some (''test_func(1, 2)'' @ [CHR 0x0A]), [])"
  by (simp add: FuncCall_String_def)


subsection \<open>The emitter API\<close>

text \<open>
  Claim C2. \<open>Log\<close> enqueues the event at the tail when the channel has room; when the
  channel is full it leaves the logger as it is and prints one diagnostic that names the
  dropped event. It is a total function that returns the logger and the diagnostics:
  there is no error result, and the buffer never grows beyond its capacity.
\<close>

theorem Log_nonblocking:
  "(length (eventBuffer l) < bufferSize l \<longrightarrow>
      Log tgt l fn = (l\<lparr>eventBuffer := eventBuffer l @ [fn]\<rparr>, []))
   \<and> (bufferSize l \<le> length (eventBuffer l) \<longrightarrow>
      fst (Log tgt l fn) = l
      \<and> snd (Log tgt l fn) =
          [Printf (if tgt \<noteq> [] \<and> isSocketAddress tgt then SocketBufferFull (Name fn)
                   else EventBufferFull (Name fn))])
   \<and> length (snd (Log tgt l fn)) \<le> 1
   \<and> length (eventBuffer (fst (Log tgt l fn))) \<le> max (bufferSize l) (length (eventBuffer l))"
  by (simp add: Log_def)

theorem Log_nonblocking_witness:
  "Log [] \<lparr>counter = 0, logFormat = FormatText, eventBuffer = [], bufferSize = 1, sentCount = 0\<rparr>
       \<lparr>Name = ''f_Enter'', Args = [''1''], Results = [], Time = 0\<rparr>
     = (\<lparr>counter = 0, logFormat = FormatText,
         eventBuffer = [\<lparr>Name = ''f_Enter'', Args = [''1''], Results = [], Time = 0\<rparr>],
         bufferSize = 1, sentCount = 0\<rparr>, [])
   \<and> Log [] \<lparr>counter = 0, logFormat = FormatText,
         eventBuffer = [\<lparr>Name = ''f_Enter'', Args = [''1''], Results = [], Time = 0\<rparr>],
         bufferSize = 1, sentCount = 0\<rparr>
       \<lparr>Name = ''f_Leave'', Args = [''1''], Results = [], Time = 1\<rparr>
     = (\<lparr>counter = 0, logFormat = FormatText,
         eventBuffer = [\<lparr>Name = ''f_Enter'', Args = [''1''], Results = [], Time = 0\<rparr>],
         bufferSize = 1, sentCount = 0\<rparr>, [Printf (EventBufferFull ''f_Leave'')])"
  using Log_nonblocking [of "\<lparr>counter = 0, logFormat = FormatText, eventBuffer = [],
            bufferSize = 1, sentCount = 0\<rparr>" "[]"
          "\<lparr>Name = ''f_Enter'', Args = [''1''], Results = [], Time = 0\<rparr>"]
    Log_nonblocking [of "\<lparr>counter = 0, logFormat = FormatText,
            eventBuffer = [\<lparr>Name = ''f_Enter'', Args = [''1''], Results = [], Time = 0\<rparr>],
            bufferSize = 1, sentCount = 0\<rparr>" "[]"
          "\<lparr>Name = ''f_Leave'', Args = [''1''], Results = [], Time = 1\<rparr>"]
  by (simp add: prod_eq_iff)

lemma appendFormatted_Inr:
  "appendFormatted tbl acc args = Inr r \<longleftrightarrow>
     (\<exists>fs. list_all2 (\<lambda>a s. format tbl a = Inr s) args fs \<and> r = acc @ fs)"
proof (induction args arbitrary: acc)
  case Nil
  then show ?case by auto
next
  case (Cons a args)
  show ?case
  proof (cases "format tbl a")
    case (Inl e)
    then show ?thesis by (auto simp: list_all2_Cons1)
  next
    case (Inr s)
    then show ?thesis by (auto simp: Cons.IH list_all2_Cons1)
  qed
qed

lemma appendFormatted_all:
  "list_all2 (\<lambda>a s. format tbl a = Inr s) args fs \<Longrightarrow>
   appendFormatted tbl acc args = Inr (acc @ fs)"
  using appendFormatted_Inr [of tbl acc args "acc @ fs"] by blast



lemma LogEnter_Inr:
  "LogEnter tbl tgt now l ident name args = Inr r \<longleftrightarrow>
      (\<exists>fs. list_all2 (\<lambda>a s. format tbl a = Inr s) args fs
         \<and> r = Log tgt l \<lparr>Name = name @ ''_Enter'', Args = FormatUint (unat ident) # fs,
                            Results = [], Time = now\<rparr>)"
proof
  assume "LogEnter tbl tgt now l ident name args = Inr r"
  then obtain fa where fa: "appendFormatted tbl [FormatUint (unat ident)] args = Inr fa"
    and r: "r = Log tgt l \<lparr>Name = name @ separator @ EnterSuffix, Args = fa,
                              Results = [], Time = now\<rparr>"
    by (auto simp: LogEnter_def split: sum.splits)
  from fa obtain fs where "list_all2 (\<lambda>a s. format tbl a = Inr s) args fs"
    and "fa = [FormatUint (unat ident)] @ fs"
    using appendFormatted_Inr [of tbl "[FormatUint (unat ident)]" args fa] by blast
  with r show "\<exists>fs. list_all2 (\<lambda>a s. format tbl a = Inr s) args fs
         \<and> r = Log tgt l \<lparr>Name = name @ ''_Enter'', Args = FormatUint (unat ident) # fs,
                            Results = [], Time = now\<rparr>"
    by (auto simp: separator_def EnterSuffix_def)
next
  assume "\<exists>fs. list_all2 (\<lambda>a s. format tbl a = Inr s) args fs
         \<and> r = Log tgt l \<lparr>Name = name @ ''_Enter'', Args = FormatUint (unat ident) # fs,
                            Results = [], Time = now\<rparr>"
  then obtain fs where fs: "list_all2 (\<lambda>a s. format tbl a = Inr s) args fs"
    and r: "r = Log tgt l \<lparr>Name = name @ ''_Enter'', Args = FormatUint (unat ident) # fs,
                            Results = [], Time = now\<rparr>"
    by blast
  from appendFormatted_all [OF fs, of "[FormatUint (unat ident)]"] r
  show "LogEnter tbl tgt now l ident name args = Inr r"
    by (simp add: LogEnter_def separator_def EnterSuffix_def)
qed

lemma LogLeave_Inr:
  "LogLeave tbl tgt now l ident name args results = Inr r \<longleftrightarrow>
      (\<exists>fs rs. list_all2 (\<lambda>a s. format tbl a = Inr s) args fs
         \<and> list_all2 (\<lambda>a s. format tbl a = Inr s) results rs
         \<and> r = Log tgt l \<lparr>Name = name @ ''_Leave'', Args = FormatUint (unat ident) # fs,
                             Results = rs, Time = now\<rparr>)"
proof
  assume "LogLeave tbl tgt now l ident name args results = Inr r"
  then obtain fa ra where fa: "appendFormatted tbl [FormatUint (unat ident)] args = Inr fa"
    and ra: "appendFormatted tbl [] results = Inr ra"
    and r: "r = Log tgt l \<lparr>Name = name @ separator @ LeaveSuffix, Args = fa,
                              Results = ra, Time = now\<rparr>"
    by (auto simp: LogLeave_def split: sum.splits)
  from fa obtain fs where fs: "list_all2 (\<lambda>a s. format tbl a = Inr s) args fs"
    and fa': "fa = [FormatUint (unat ident)] @ fs"
    using appendFormatted_Inr [of tbl "[FormatUint (unat ident)]" args fa] by blast
  from ra have rs: "list_all2 (\<lambda>a s. format tbl a = Inr s) results ra"
    using appendFormatted_Inr [of tbl "[]" results ra] by simp
  from r fs fa' rs
  show "\<exists>fs rs. list_all2 (\<lambda>a s. format tbl a = Inr s) args fs
         \<and> list_all2 (\<lambda>a s. format tbl a = Inr s) results rs
         \<and> r = Log tgt l \<lparr>Name = name @ ''_Leave'', Args = FormatUint (unat ident) # fs,
                             Results = rs, Time = now\<rparr>"
    by (auto simp: separator_def LeaveSuffix_def)
next
  assume "\<exists>fs rs. list_all2 (\<lambda>a s. format tbl a = Inr s) args fs
         \<and> list_all2 (\<lambda>a s. format tbl a = Inr s) results rs
         \<and> r = Log tgt l \<lparr>Name = name @ ''_Leave'', Args = FormatUint (unat ident) # fs,
                             Results = rs, Time = now\<rparr>"
  then obtain fs rs where fs: "list_all2 (\<lambda>a s. format tbl a = Inr s) args fs"
    and rs: "list_all2 (\<lambda>a s. format tbl a = Inr s) results rs"
    and r: "r = Log tgt l \<lparr>Name = name @ ''_Leave'', Args = FormatUint (unat ident) # fs,
                             Results = rs, Time = now\<rparr>"
    by blast
  from appendFormatted_all [OF fs, of "[FormatUint (unat ident)]"]
    appendFormatted_all [OF rs, of "[]"] r
  show "LogLeave tbl tgt now l ident name args results = Inr r"
    by (simp add: LogLeave_def separator_def LeaveSuffix_def)
qed

text \<open>
  Where \<open>format\<close> returns on every argument (and result), \<open>LogEnter\<close> hands to \<open>Log\<close> the
  event named \<open>name_Enter\<close> whose arguments are the formatted id followed by the formatted
  arguments, in order, and which has no results; \<open>LogLeave\<close> hands over the event named
  \<open>name_Leave\<close> with the same arguments and with the formatted results, in order. The
  formatted id is what \<open>format\<close> gives for the id as a \<open>uint64\<close>. The calls return exactly
  when \<open>format\<close> returns on every argument (and result).
\<close>

lemma LogEnter_LogLeave_event:
  "(LogEnter tbl tgt now l ident name args = Inr r \<longleftrightarrow>
      (\<exists>fs. list_all2 (\<lambda>a s. format tbl a = Inr s) args fs
         \<and> r = Log tgt l \<lparr>Name = name @ ''_Enter'', Args = FormatUint (unat ident) # fs,
                            Results = [], Time = now\<rparr>))
   \<and> (LogLeave tbl tgt now l ident name args results = Inr r' \<longleftrightarrow>
      (\<exists>fs rs. list_all2 (\<lambda>a s. format tbl a = Inr s) args fs
         \<and> list_all2 (\<lambda>a s. format tbl a = Inr s) results rs
         \<and> r' = Log tgt l \<lparr>Name = name @ ''_Leave'', Args = FormatUint (unat ident) # fs,
                             Results = rs, Time = now\<rparr>))
   \<and> format tbl (GoUint64 ident) = Inr (FormatUint (unat ident))"
  using LogEnter_Inr [of tbl tgt now l ident name args r]
    LogLeave_Inr [of tbl tgt now l ident name args results r']
  by simp


lemma LogEnter_LogLeave_event_example:
  "LogEnter asciiTable [] 0 (NewLogger [] FormatText) 1 ''testFunc'' [GoInt 42, GoString ''hello'']
     = Inr (Log [] (NewLogger [] FormatText)
              \<lparr>Name = ''testFunc_Enter'',
               Args = [''1'', ''42'', [CHR 0x22] @ ''hello'' @ [CHR 0x22]],
               Results = [], Time = 0\<rparr>)"
proof -
  have u: "FormatUint (unat (1 :: 64 word)) = ''1''"
    by (simp add: FormatUint_def digitsOf.simps digitChar_def)
  have f: "list_all2 (\<lambda>a s. format asciiTable a = Inr s) [GoInt 42, GoString ''hello'']
             [''42'', [CHR 0x22] @ ''hello'' @ [CHR 0x22]]"
    using format_GoInt_42 [of asciiTable] format_GoString_hello [of asciiTable] by simp
  have "\<exists>fs. list_all2 (\<lambda>a s. format asciiTable a = Inr s) [GoInt 42, GoString ''hello''] fs
         \<and> Log [] (NewLogger [] FormatText)
              \<lparr>Name = ''testFunc_Enter'',
               Args = [''1'', ''42'', [CHR 0x22] @ ''hello'' @ [CHR 0x22]],
               Results = [], Time = 0\<rparr>
           = Log [] (NewLogger [] FormatText)
              \<lparr>Name = ''testFunc'' @ ''_Enter'', Args = FormatUint (unat (1 :: 64 word)) # fs,
               Results = [], Time = 0\<rparr>"
    using f u by (intro exI [of _ "[''42'', [CHR 0x22] @ ''hello'' @ [CHR 0x22]]"]) simp
  then show ?thesis
    using LogEnter_LogLeave_event [where tbl = asciiTable and tgt = "[]" and now = 0
        and l = "NewLogger [] FormatText" and ident = 1 and name = "''testFunc''"
        and args = "[GoInt 42, GoString ''hello'']"
        and r = "Log [] (NewLogger [] FormatText)
              \<lparr>Name = ''testFunc_Enter'',
               Args = [''1'', ''42'', [CHR 0x22] @ ''hello'' @ [CHR 0x22]],
               Results = [], Time = 0\<rparr>"]
    by blast
qed

lemma appendFormatted_panic:
  "appendFormatted tbl acc (args @ GoError None # rest) = Inl ErrorMethodPanic"
proof (induction args arbitrary: acc)
  case Nil
  then show ?case by simp
next
  case (Cons a args)
  then show ?case by (cases "format tbl a"; simp) (metis failure.exhaust)
qed

text \<open>
  Claim C6. For every id, name, argument list and result list, \<open>LogEnter\<close> builds the event
  \<open>name_Enter\<close> with the formatted id and arguments and no results, and \<open>LogLeave\<close> the
  event \<open>name_Leave\<close> with the formatted id, arguments and results. The code does not do so
  for every list: where an argument or a result is a nil pointer of a type whose \<open>Error\<close>
  method reads through its receiver, wherever it stands in the list, the call of \<open>format\<close>
  in the loop of lines 109-111 (150-152 and 155-157 in \<open>LogLeave\<close>) panics in its
  \<open>case error\<close> arm, and \<open>LogEnter\<close> and \<open>LogLeave\<close> pass the panic on: no event is built and
  \<open>Log\<close> is not called. So does \<open>LogEnter(1, "f", []any{p})\<close> with such a \<open>p\<close>.
\<close>

theorem LogEnter_LogLeave_panic:
  "LogEnter tbl tgt now l ident name (args @ GoError None # rest) = Inl ErrorMethodPanic
   \<and> LogLeave tbl tgt now l ident name (args @ GoError None # rest) results
       = Inl ErrorMethodPanic
   \<and> LogLeave tbl tgt now l ident name args (results @ GoError None # rest)
       = Inl ErrorMethodPanic
   \<and> LogEnter tbl tgt now l 1 ''f'' [GoError None] = Inl ErrorMethodPanic
   \<and> LogLeave tbl tgt now l 1 ''f'' [] [GoError None] = Inl ErrorMethodPanic
   \<and> (\<forall>r. LogEnter tbl tgt now l 1 ''f'' [GoError None] \<noteq> Inr r)"
proof -
  have a: "appendFormatted tbl acc (xs @ GoError None # rs) = Inl ErrorMethodPanic"
    for acc xs rs
    by (rule appendFormatted_panic)
  have 1: "LogEnter tbl tgt now l i nm (xs @ GoError None # rs) = Inl ErrorMethodPanic"
    for i nm xs rs
    by (simp add: LogEnter_def a)
  have 2: "LogLeave tbl tgt now l i nm (xs @ GoError None # rs) ys = Inl ErrorMethodPanic"
    for i nm xs rs ys
    by (simp add: LogLeave_def a)
  have 3: "LogLeave tbl tgt now l i nm xs (ys @ GoError None # rs) = Inl ErrorMethodPanic"
    for i nm xs ys rs
    by (cases "appendFormatted tbl [FormatUint (unat i)] xs")
       (simp_all add: LogLeave_def appendFormatted_panic, metis failure.exhaust)
  show ?thesis
    using 1 [of ident name args rest] 2 [of ident name args rest results]
      3 [of ident name args results rest] 1 [of 1 "''f''" "[]" "[]"]
      3 [of 1 "''f''" "[]" "[]" "[]"]
    by simp
qed

subsection \<open>Traces\<close>

lemma formatEvent_logs:
  "snd (formatEvent enc fn fmt) = [] \<or> snd (formatEvent enc fn fmt) = [Printf FormatError]"
  by (cases fmt) (simp_all split: option.split)

lemma formatEvent_logs_proj [simp]:
  "writesOf (snd (formatEvent enc fn fmt)) = []"
  "receivesOf (snd (formatEvent enc fn fmt)) = []"
  "dialsOf (snd (formatEvent enc fn fmt)) = []"
  "waitsOf (snd (formatEvent enc fn fmt)) = []"
  "filter (\<lambda>d. d = FileWriteFailed) (printsOf (snd (formatEvent enc fn fmt))) = []"
  "\<forall>e \<in> set (snd (formatEvent enc fn fmt)). \<not> isReceive e"
  using formatEvent_logs [of enc fn fmt]
  by (auto simp: writesOf_def receivesOf_def dialsOf_def waitsOf_def printsOf_def isReceive_def)

lemma proj_append [simp]:
  "writesOf (xs @ ys) = writesOf xs @ writesOf ys"
  "receivesOf (xs @ ys) = receivesOf xs @ receivesOf ys"
  "dialsOf (xs @ ys) = dialsOf xs @ dialsOf ys"
  "waitsOf (xs @ ys) = waitsOf xs @ waitsOf ys"
  "printsOf (xs @ ys) = printsOf xs @ printsOf ys"
  by (simp_all add: writesOf_def receivesOf_def dialsOf_def waitsOf_def printsOf_def)

lemma proj_Nil [simp]:
  "writesOf [] = []" "receivesOf [] = []" "dialsOf [] = []" "waitsOf [] = []" "printsOf [] = []"
  by (simp_all add: writesOf_def receivesOf_def dialsOf_def waitsOf_def printsOf_def)

lemma proj_Cons [simp]:
  "writesOf (e # es) = (case e of Write b ok \<Rightarrow> [(b, ok)] | _ \<Rightarrow> []) @ writesOf es"
  "receivesOf (e # es) = (case e of Receive fn \<Rightarrow> [fn] | _ \<Rightarrow> []) @ receivesOf es"
  "dialsOf (e # es) = (case e of DialTimeout nt a t ok \<Rightarrow> [(t, ok)] | _ \<Rightarrow> []) @ dialsOf es"
  "waitsOf (e # es) = (case e of After d \<Rightarrow> [d] | _ \<Rightarrow> []) @ waitsOf es"
  "printsOf (e # es) = (case e of Printf d \<Rightarrow> [d] | _ \<Rightarrow> []) @ printsOf es"
  by (simp_all add: writesOf_def receivesOf_def dialsOf_def waitsOf_def printsOf_def)

lemma outcomesFor_length [simp]: "length (outcomesFor n os) = n"
  by (induction n arbitrary: os) simp_all

lemma outcomesFor_nth:
  "k < n \<Longrightarrow> outcomesFor n os ! k = (if k < length os then os ! k else True)"
proof (induction n arbitrary: os k)
  case 0
  then show ?case by simp
next
  case (Suc n)
  show ?case
  proof (cases k)
    case 0
    then show ?thesis by (cases os) (simp_all add: writeTo_def)
  next
    case (Suc j)
    with Suc.prems have "j < n" by simp
    from Suc.IH [OF this, of "snd (writeTo os)"] Suc show ?thesis
      by (cases os) (simp_all add: writeTo_def)
  qed
qed

lemma fileLoop_receives: "receivesOf (fileLoop enc fmt os evs) = evs"
  by (induction evs arbitrary: os) simp_all

lemma fileLoop_bytes:
  "map fst (writesOf (fileLoop enc fmt os evs)) = map (\<lambda>fn. bytesOf (encode enc fmt fn)) evs"
  by (induction evs arbitrary: os) (simp_all add: encode_def)

lemma fileLoop_outcomes:
  "map snd (writesOf (fileLoop enc fmt os evs)) = outcomesFor (length evs) os"
  by (induction evs arbitrary: os) simp_all

lemma fileLoop_logged:
  "length (filter (\<lambda>d. d = FileWriteFailed) (printsOf (fileLoop enc fmt os evs)))
     = length (filter (\<lambda>w. \<not> snd w) (writesOf (fileLoop enc fmt os evs)))"
  by (induction evs arbitrary: os) simp_all


subsection \<open>The file worker\<close>

text \<open>
  Claim C9. The file worker takes every event from the channel, encodes it and writes it
  exactly once, in order, whatever the outcomes of the writes are; each failed write is
  logged once, and the worker goes on with the next event. Apart from the emptied channel
  the logger is left as it was: the worker keeps no backlog and writes no event twice.
\<close>

theorem processLogQueueToFile_continues:
  "(case processLogQueueToFile enc outcomes l of
      (l', es) \<Rightarrow>
        l' = l\<lparr>eventBuffer := []\<rparr>
        \<and> receivesOf es = eventBuffer l
        \<and> map fst (writesOf es) = map (\<lambda>fn. bytesOf (encode enc (logFormat l) fn)) (eventBuffer l)
        \<and> map snd (writesOf es) = outcomesFor (length (eventBuffer l)) outcomes
        \<and> length (filter (\<lambda>d. d = FileWriteFailed) (printsOf es))
            = length (filter (\<lambda>w. \<not> snd w) (writesOf es)))"
  by (simp add: processLogQueueToFile_def fileLoop_receives fileLoop_bytes fileLoop_outcomes
        fileLoop_logged)


lemma file_example:
  "processLogQueueToFile textOnly [True, False, True]
     \<lparr>counter = 0, logFormat = FormatText,
      eventBuffer = [\<lparr>Name = ''a'', Args = [], Results = [], Time = 0\<rparr>,
                     \<lparr>Name = ''b'', Args = [], Results = [], Time = 1\<rparr>,
                     \<lparr>Name = ''c'', Args = [], Results = [], Time = 2\<rparr>],
      bufferSize = 10000, sentCount = 0\<rparr>
   = (\<lparr>counter = 0, logFormat = FormatText, eventBuffer = [], bufferSize = 10000, sentCount = 0\<rparr>,
      [Receive \<lparr>Name = ''a'', Args = [], Results = [], Time = 0\<rparr>, Write (''a()'' @ [CHR 0x0A]) True,
       Receive \<lparr>Name = ''b'', Args = [], Results = [], Time = 1\<rparr>, Write (''b()'' @ [CHR 0x0A]) False,
       Printf FileWriteFailed,
       Receive \<lparr>Name = ''c'', Args = [], Results = [], Time = 2\<rparr>, Write (''c()'' @ [CHR 0x0A]) True])"
  by (simp add: processLogQueueToFile_def writeTo_def bytesOf_def FuncCall_String_def)

subsection \<open>The socket worker\<close>

lemma appendBacklog_bounded:
  "length bl \<le> 10000 \<Longrightarrow> length (fst (appendBacklog bl fn)) \<le> 10000"
  unfolding appendBacklog_def by (simp, arith)

lemma appendBacklog_suffix: "suffix (fst (appendBacklog bl fn)) (bl @ [fn])"
  by (simp add: appendBacklog_def suffix_drop)

lemma appendBacklog_effects [simp]:
  "writesOf (snd (appendBacklog bl fn)) = []"
  "receivesOf (snd (appendBacklog bl fn)) = []"
  "dialsOf (snd (appendBacklog bl fn)) = []"
  "waitsOf (snd (appendBacklog bl fn)) = []"
  by (simp_all add: appendBacklog_def)

lemma drainDone_simps [simp]:
  "fst (drainDone w dc) = w"
  "writesOf (snd (drainDone w dc)) = []"
  "receivesOf (snd (drainDone w dc)) = []"
  "dialsOf (snd (drainDone w dc)) = []"
  "waitsOf (snd (drainDone w dc)) = []"
  by (simp_all add: drainDone_def)

lemma drainLoop_frame:
  "currentRetry (fst (drainLoop n queue w dc)) = currentRetry w
   \<and> logFormat (fst (drainLoop n queue w dc)) = logFormat w
   \<and> sentCount (fst (drainLoop n queue w dc)) = sentCount w
   \<and> eventBuffer (fst (drainLoop n queue w dc)) = drop n queue
   \<and> receivesOf (snd (drainLoop n queue w dc)) = take n queue
   \<and> dialsOf (snd (drainLoop n queue w dc)) = []
   \<and> waitsOf (snd (drainLoop n queue w dc)) = []
   \<and> writesOf (snd (drainLoop n queue w dc)) = []"
  by (induction n queue w dc rule: drainLoop.induct) (simp_all add: split_beta)

lemma drainLoop_suffix:
  "suffix (eventBacklog (fst (drainLoop n queue w dc))) (eventBacklog w @ take n queue)"
proof (induction n queue w dc rule: drainLoop.induct)
  case (1 queue w drainCount)
  then show ?case by simp
next
  case (2 n w drainCount)
  then show ?case by simp
next
  case (3 n fn queue w drainCount)
  let ?w = "w\<lparr>eventBacklog := fst (appendBacklog (eventBacklog w) fn)\<rparr>"
  have s1: "suffix (eventBacklog (fst (drainLoop n queue ?w (drainCount + 1))))
              (fst (appendBacklog (eventBacklog w) fn) @ take n queue)"
    using "3.IH" by simp
  have s2: "suffix (fst (appendBacklog (eventBacklog w) fn) @ take n queue)
              ((eventBacklog w @ [fn]) @ take n queue)"
    using appendBacklog_suffix [of "eventBacklog w" fn] by (simp add: suffix_def)
  from suffix_order.trans [OF s1 s2] show ?case
    by (simp add: split_beta)
qed

lemma drainLoop_bounded:
  "length (eventBacklog w) \<le> 10000 \<Longrightarrow>
   length (eventBacklog (fst (drainLoop n queue w dc))) \<le> 10000"
proof (induction n queue w dc rule: drainLoop.induct)
  case (1 queue w drainCount)
  then show ?case by simp
next
  case (2 n w drainCount)
  then show ?case by simp
next
  case (3 n fn queue w drainCount)
  let ?w = "w\<lparr>eventBacklog := fst (appendBacklog (eventBacklog w) fn)\<rparr>"
  have "length (eventBacklog ?w) \<le> 10000"
    using "3.prems" by (simp add: appendBacklog_bounded)
  from "3.IH" [OF this] show ?case by (simp add: split_beta)
qed

lemma drop_append_le: "n \<le> length ys \<Longrightarrow> drop n (ys @ zs) = drop n ys @ zs"
  by simp

lemma evict_fold_closed:
  "length bl \<le> 10000 \<Longrightarrow>
   foldl (\<lambda>backlog fn. if 10000 < length (backlog @ [fn])
                         then drop 2000 (backlog @ [fn]) else backlog @ [fn]) bl xs
     = drop (2000 * ((length bl + length xs - 8001) div 2000)) (bl @ (xs::'a list))"
proof (induction xs rule: rev_induct)
  case Nil
  then have "(length bl - 8001) div 2000 = 0" by simp
  then show ?case by simp
next
  case (snoc x xs)
  define e where "e = (length bl + length xs - 8001) div 2000"
  define B where "B = drop (2000 * e) (bl @ xs)"
  have le: "2000 * e \<le> length (bl @ xs)" unfolding e_def by (simp; arith)
  have lenB: "length B = length bl + length xs - 2000 * e"
    unfolding B_def by (simp only: length_drop length_append)
  have bnd: "length B \<le> 10000" using snoc.prems unfolding lenB e_def by arith
  have ih: "foldl (\<lambda>backlog fn. if 10000 < length (backlog @ [fn])
                         then drop 2000 (backlog @ [fn]) else backlog @ [fn]) bl xs = B"
    using snoc.IH [OF snoc.prems] unfolding B_def e_def .
  show ?case
  proof (cases "length B = 10000")
    case True
    then have e': "(length bl + length (xs @ [x]) - 8001) div 2000 = Suc e"
      unfolding lenB e_def by (simp; arith)
    have "drop 2000 (B @ [x]) = drop 2000 B @ [x]"
      using True by (simp add: drop_append_le del: drop_append)
    also have "\<dots> = drop (2000 * Suc e) (bl @ xs) @ [x]"
      unfolding B_def by (simp only: drop_drop mult_Suc_right add.commute)
    also have "\<dots> = drop (2000 * Suc e) ((bl @ xs) @ [x])"
    proof -
      have "2000 * Suc e \<le> length (bl @ xs)"
        using True le unfolding lenB by simp
      then show ?thesis by (simp only: drop_append_le)
    qed
    finally have d: "drop 2000 (B @ [x]) = drop (2000 * Suc e) (bl @ xs @ [x])"
      by (simp only: append_assoc)
    have "foldl (\<lambda>backlog fn. if 10000 < length (backlog @ [fn])
                         then drop 2000 (backlog @ [fn]) else backlog @ [fn]) bl (xs @ [x])
            = drop 2000 (B @ [x])"
      unfolding foldl_append ih using True by (simp del: drop_append)
    then show ?thesis unfolding d e' .
  next
    case False
    with bnd have lt: "length B < 10000" by simp
    then have e': "(length bl + length (xs @ [x]) - 8001) div 2000 = e"
      unfolding lenB e_def by (simp; arith)
    have d: "B @ [x] = drop (2000 * e) (bl @ xs @ [x])"
      unfolding B_def using drop_append_le [OF le, of "[x]"] by (simp only: append_assoc)
    have "foldl (\<lambda>backlog fn. if 10000 < length (backlog @ [fn])
                         then drop 2000 (backlog @ [fn]) else backlog @ [fn]) bl (xs @ [x])
            = B @ [x]"
      unfolding foldl_append ih using lt by (simp del: drop_append)
    then show ?thesis unfolding d e' .
  qed
qed

lemma drainLoop_fold:
  "eventBacklog (fst (drainLoop n queue w dc))
     = foldl (\<lambda>backlog fn. if 10000 < length (backlog @ [fn])
                             then drop 2000 (backlog @ [fn]) else backlog @ [fn])
         (eventBacklog w) (take n queue)"
  by (induction n queue w dc rule: drainLoop.induct)
     (simp_all add: split_beta appendBacklog_def)

lemma drainLoop_closed:
  "length (eventBacklog w) \<le> 10000 \<Longrightarrow>
   eventBacklog (fst (drainLoop n queue w dc))
     = drop (2000 * ((length (eventBacklog w) + length (take n queue) - 8001) div 2000))
         (eventBacklog w @ take n queue)"
  unfolding drainLoop_fold by (rule evict_fold_closed)

lemma drainLoop_step_full:
  "length (eventBacklog w) = 10000 \<Longrightarrow>
   drainLoop (Suc n) (fn # queue) w dc
     = (case drainLoop n queue (w\<lparr>eventBacklog := drop 2000 (eventBacklog w @ [fn])\<rparr>) (dc + 1) of
          (w', es) \<Rightarrow> (w', Receive fn # Printf (BacklogOverflow 2000 8001) # es))"
  by (simp add: appendBacklog_def)

lemma drainLoop_step_room:
  "length (eventBacklog w) < 10000 \<Longrightarrow>
   drainLoop (Suc n) (fn # queue) w dc
     = (case drainLoop n queue (w\<lparr>eventBacklog := eventBacklog w @ [fn]\<rparr>) (dc + 1) of
          (w', es) \<Rightarrow> (w', Receive fn # es))"
  by (simp add: appendBacklog_def)

lemma wrap64_id: "- (2 ^ 63) \<le> x \<Longrightarrow> x < 2 ^ 63 \<Longrightarrow> wrap64 x = x"
  by (simp add: wrap64_def)

lemma backoff_step:
  fixes k :: nat
  defines "cr \<equiv> min (2 ^ k * second) maxRetry"
  shows "(if maxRetry < wrap64 (cr * 2) then maxRetry else wrap64 (cr * 2))
           = min (2 ^ Suc k * second) maxRetry"
proof -
  define P where "P = 2 ^ k * second"
  have Ppos: "0 < P" by (simp add: P_def second_def)
  have M: "maxRetry = 30000000000" by (simp add: maxRetry_def second_def)
  have cr: "cr = min P 30000000000" by (simp add: cr_def P_def M)
  have P2: "2 ^ Suc k * second = 2 * P" by (simp add: P_def)
  have w: "wrap64 (cr * 2) = cr * 2"
    using Ppos by (intro wrap64_id) (simp_all add: cr min_def)
  show ?thesis
    unfolding w unfolding P2 M cr by (simp add: min_def)
qed

lemma dialFailed_spec:
  "currentRetry (fst (dialFailed logAddr n w))
     = (if maxRetry < wrap64 (currentRetry w * 2) then maxRetry else wrap64 (currentRetry w * 2))
   \<and> dialsOf (snd (dialFailed logAddr n w)) = [(dialTimeout, False)]
   \<and> waitsOf (snd (dialFailed logAddr n w)) = [currentRetry w]
   \<and> writesOf (snd (dialFailed logAddr n w)) = []
   \<and> eventBacklog (fst (dialFailed logAddr n w))
        = eventBacklog (fst (drainLoop n (eventBuffer w) w 0))
   \<and> eventBuffer (fst (dialFailed logAddr n w)) = drop n (eventBuffer w)"
  using drainLoop_frame [of n "eventBuffer w" w 0]
  by (simp add: dialFailed_def split_beta)

lemma flushBacklog_spec:
  "flushBacklog enc fmt os i bl sent = (r, os', sent', es) \<Longrightarrow>
   dialsOf es = [] \<and> waitsOf es = [] \<and> (\<forall>e \<in> set es. \<not> isReceive e)
   \<and> (case r of
         None \<Rightarrow> writesOf es = map (\<lambda>b. (b, True)) (List.map_filter (encode enc fmt) bl)
       | Some j \<Rightarrow> i \<le> j \<and> j - i < length bl
           \<and> (\<exists>b. encode enc fmt (bl ! (j - i)) = Some b
                \<and> writesOf es = map (\<lambda>b. (b, True))
                                  (List.map_filter (encode enc fmt) (take (j - i) bl))
                                @ [(b, False)]))"
proof (induction bl arbitrary: os i sent r os' sent' es)
  case Nil
  then show ?case by (auto simp: map_filter_simps)
next
  case (Cons fn rest)
  obtain bs logs where fe: "formatEvent enc fn fmt = (bs, logs)"
    by (cases "formatEvent enc fn fmt")
  have logs: "writesOf logs = []" "dialsOf logs = []" "waitsOf logs = []"
    "\<forall>e \<in> set logs. \<not> isReceive e"
    using formatEvent_logs_proj [of enc fn fmt] fe by simp_all
  have en: "encode enc fmt fn = bs" by (simp add: encode_def fe)
  show ?case
  proof (cases bs)
    case None
    obtain r1 o1 s1 e1 where rec: "flushBacklog enc fmt os (i + 1) rest sent = (r1, o1, s1, e1)"
      by (cases "flushBacklog enc fmt os (i + 1) rest sent") auto
    from Cons.prems fe None rec have eq: "r = r1" "es = logs @ e1" by auto
    note ih = Cons.IH [OF rec]
    show ?thesis
    proof (cases r1)
      case N: None
      with ih eq logs en None show ?thesis by (auto simp: map_filter_simps)
    next
      case (Some j)
      with ih have j: "Suc i \<le> j" "j - Suc i < length rest" by simp_all
      then have d: "j - i = Suc (j - Suc i)" by simp
      from ih Some eq logs en None j show ?thesis
        by (auto simp: map_filter_simps d)
    qed
  next
    case (Some bytes)
    show ?thesis
    proof (cases "fst (writeTo os)")
      case False
      with Cons.prems fe Some have
        eq: "r = Some i" "es = logs @ [Write bytes False, Printf (BacklogWriteFailed i), Close]"
        by auto
      with logs en Some False show ?thesis
        by (auto simp: map_filter_simps isReceive_def)
    next
      case True
      obtain r1 o1 s1 e1 where
        rec: "flushBacklog enc fmt (snd (writeTo os)) (i + 1) rest (sent + 1) = (r1, o1, s1, e1)"
        by (cases "flushBacklog enc fmt (snd (writeTo os)) (i + 1) rest (sent + 1)") auto
      from Cons.prems fe Some True rec have eq: "r = r1" "es = logs @ Write bytes True # e1"
        by auto
      note ih = Cons.IH [OF rec]
      show ?thesis
      proof (cases r1)
        case N: None
        with ih eq logs en Some True show ?thesis
          by (auto simp: map_filter_simps isReceive_def)
      next
        case S: (Some j)
        with ih have j: "Suc i \<le> j" "j - Suc i < length rest" by simp_all
        then have d: "j - i = Suc (j - Suc i)" by simp
        from ih S eq logs en Some True j show ?thesis
          by (auto simp: map_filter_simps d isReceive_def)
      qed
    qed
  qed
qed

lemma flushBacklog_outcomes:
  "map snd (writesOf (snd (snd (snd (flushBacklog enc fmt os i bl sent)))))
     = outcomesFor (length (writesOf (snd (snd (snd (flushBacklog enc fmt os i bl sent)))))) os"
proof (induction bl arbitrary: os i sent)
  case Nil
  then show ?case by simp
next
  case (Cons fn rest)
  obtain bs logs where fe: "formatEvent enc fn fmt = (bs, logs)"
    by (cases "formatEvent enc fn fmt")
  have logs: "writesOf logs = []"
    using formatEvent_logs_proj [of enc fn fmt] fe by simp
  show ?case
  proof (cases bs)
    case None
    with fe logs Cons.IH [of os "i + 1" sent] show ?thesis
      by (simp add: split_beta)
  next
    case (Some bytes)
    with fe logs Cons.IH [of "snd (writeTo os)" "i + 1" "sent + 1"] show ?thesis
      by (simp add: split_beta)
  qed
qed

lemma okWrites_simps [simp]:
  "okWrites [] = []"
  "okWrites (xs @ ys) = okWrites xs @ okWrites ys"
  by (simp_all add: okWrites_def)

lemma okWrites_logs [simp]: "okWrites (snd (formatEvent enc fn fmt)) = []"
  by (simp add: okWrites_def)

lemma sendingLoop_spec:
  "sendingLoop enc os q w = (w', failed, es) \<Longrightarrow>
   currentRetry w' = currentRetry w \<and> logFormat w' = logFormat w
   \<and> dialsOf es = [] \<and> waitsOf es = []
   \<and> (es = [] \<or> isReceive (hd es))
   \<and> (\<exists>k. k \<le> length q
         \<and> okWrites es = List.map_filter (encode enc (logFormat w)) (take k q)
         \<and> (if failed
             then k < length q \<and> eventBacklog w' = eventBacklog w @ [q ! k]
                  \<and> eventBuffer w' = drop (Suc k) q \<and> receivesOf es = take (Suc k) q
             else k = length q \<and> eventBacklog w' = eventBacklog w
                  \<and> eventBuffer w' = [] \<and> receivesOf es = q))"
proof (induction q arbitrary: os w w' failed es)
  case Nil
  then show ?case by (auto simp: map_filter_simps)
next
  case (Cons fn queue)
  obtain bs logs where fe: "formatEvent enc fn (logFormat w) = (bs, logs)"
    by (cases "formatEvent enc fn (logFormat w)")
  have logs: "writesOf logs = []" "dialsOf logs = []" "waitsOf logs = []" "receivesOf logs = []"
    "okWrites logs = []"
    using formatEvent_logs_proj [of enc fn "logFormat w"] okWrites_logs [of enc fn "logFormat w"] fe
    by simp_all
  have en: "encode enc (logFormat w) fn = bs" by (simp add: encode_def fe)
  show ?case
  proof (cases bs)
    case None
    obtain w1 f1 e1 where rec: "sendingLoop enc os queue w = (w1, f1, e1)"
      by (cases "sendingLoop enc os queue w") auto
    from Cons.prems fe None rec have eq: "w' = w1" "failed = f1" "es = Receive fn # logs @ e1"
      by auto
    from Cons.IH [OF rec] obtain k where k: "k \<le> length queue"
      "okWrites e1 = List.map_filter (encode enc (logFormat w)) (take k queue)"
      "if f1 then k < length queue \<and> eventBacklog w1 = eventBacklog w @ [queue ! k]
                  \<and> eventBuffer w1 = drop (Suc k) queue \<and> receivesOf e1 = take (Suc k) queue
       else k = length queue \<and> eventBacklog w1 = eventBacklog w
                  \<and> eventBuffer w1 = [] \<and> receivesOf e1 = queue"
      and fr: "currentRetry w1 = currentRetry w" "logFormat w1 = logFormat w"
        "dialsOf e1 = []" "waitsOf e1 = []"
      by blast
    have "okWrites es = List.map_filter (encode enc (logFormat w)) (take (Suc k) (fn # queue))"
      using k(2) eq logs en None by (simp add: map_filter_simps okWrites_def)
    moreover have "if failed
             then Suc k < length (fn # queue) \<and> eventBacklog w' = eventBacklog w @ [(fn # queue) ! Suc k]
                  \<and> eventBuffer w' = drop (Suc (Suc k)) (fn # queue)
                  \<and> receivesOf es = take (Suc (Suc k)) (fn # queue)
             else Suc k = length (fn # queue) \<and> eventBacklog w' = eventBacklog w
                  \<and> eventBuffer w' = [] \<and> receivesOf es = fn # queue"
      using k(3) eq logs by (auto split: if_splits)
    moreover have "Suc k \<le> length (fn # queue)" using k(1) by simp
    ultimately show ?thesis
      using fr eq logs by (intro conjI exI [of _ "Suc k"]) (simp_all add: isReceive_def)
  next
    case (Some bytes)
    show ?thesis
    proof (cases "fst (writeTo os)")
      case False
      with Cons.prems fe Some have
        eq: "w' = w\<lparr>eventBuffer := queue, eventBacklog := eventBacklog w @ [fn]\<rparr>" "failed"
            "es = Receive fn # logs @ [Write bytes False, Printf SocketWriteFailed]"
        by auto
      with logs show ?thesis
        by (intro conjI exI [of _ 0]) (simp_all add: isReceive_def map_filter_simps okWrites_def)
    next
      case True
      let ?w = "w\<lparr>sentCount := sentCount w + 1\<rparr>"
      obtain w1 f1 e1 where rec: "sendingLoop enc (snd (writeTo os)) queue ?w = (w1, f1, e1)"
        by (cases "sendingLoop enc (snd (writeTo os)) queue ?w") auto
      from Cons.prems fe Some True rec have eq: "w' = w1" "failed = f1"
        "es = Receive fn # logs @ Write bytes True
                # (if unat (sentCount w + 1) mod 1000 = 0
                   then [Printf (SentEvents (unat (sentCount w + 1)))] else []) @ e1"
        by auto
      have e: "eventBacklog ?w = eventBacklog w" "logFormat ?w = logFormat w"
        "currentRetry ?w = currentRetry w"
        by simp_all
      note ih = Cons.IH [OF rec, unfolded e]
      from ih obtain k where k: "k \<le> length queue"
        "okWrites e1 = List.map_filter (encode enc (logFormat w)) (take k queue)"
        "if f1 then k < length queue \<and> eventBacklog w1 = eventBacklog w @ [queue ! k]
                    \<and> eventBuffer w1 = drop (Suc k) queue \<and> receivesOf e1 = take (Suc k) queue
         else k = length queue \<and> eventBacklog w1 = eventBacklog w
                    \<and> eventBuffer w1 = [] \<and> receivesOf e1 = queue"
        and fr: "currentRetry w1 = currentRetry w" "logFormat w1 = logFormat w"
          "dialsOf e1 = []" "waitsOf e1 = []"
        by blast
      have "okWrites es = List.map_filter (encode enc (logFormat w)) (take (Suc k) (fn # queue))"
        using k(2) eq logs en Some by (simp add: map_filter_simps okWrites_def)
      moreover have "if failed
               then Suc k < length (fn # queue) \<and> eventBacklog w' = eventBacklog w @ [(fn # queue) ! Suc k]
                    \<and> eventBuffer w' = drop (Suc (Suc k)) (fn # queue)
                    \<and> receivesOf es = take (Suc (Suc k)) (fn # queue)
               else Suc k = length (fn # queue) \<and> eventBacklog w' = eventBacklog w
                    \<and> eventBuffer w' = [] \<and> receivesOf es = fn # queue"
        using k(3) eq logs by (auto split: if_splits)
      moreover have "Suc k \<le> length (fn # queue)" using k(1) by simp
      ultimately show ?thesis
        using fr eq logs by (intro conjI exI [of _ "Suc k"]) (simp_all add: isReceive_def)
    qed
  qed
qed

lemma setKeepAlive_proj [simp]:
  "writesOf (setKeepAlive a c) = []"
  "receivesOf (setKeepAlive a c) = []"
  "dialsOf (setKeepAlive a c) = []"
  "waitsOf (setKeepAlive a c) = []"
  "okWrites (setKeepAlive a c) = []"
  "\<forall>e \<in> set (setKeepAlive a c). \<not> isReceive e"
  by (auto simp: setKeepAlive_def okWrites_def isReceive_def)

lemma map_filter_append:
  "List.map_filter f (xs @ ys) = List.map_filter f xs @ List.map_filter f ys"
  by (simp add: List.map_filter_def)

lemma okWrites_all_ok: "writesOf es = map (\<lambda>b. (b, True)) bs \<Longrightarrow> okWrites es = bs"
  by (simp add: okWrites_def comp_def)

lemma receivesOf_none: "\<forall>e \<in> set es. \<not> isReceive e \<Longrightarrow> receivesOf es = []"
  by (induction es) (auto simp: isReceive_def split: effect.splits)

lemma connected_frame:
  "connected enc a c w = (w', again, es) \<Longrightarrow>
   currentRetry w' = retryBase \<and> dialsOf es = [(dialTimeout, True)] \<and> waitsOf es = []
   \<and> length (eventBacklog w') \<le> max 1 (length (eventBacklog w))"
proof -
  assume c: "connected enc a c w = (w', again, es)"
  obtain r os sent fes where
    fl: "flushBacklog enc (logFormat w) (writes c) 0 (eventBacklog w) (sentCount w) = (r, os, sent, fes)"
    by (cases "flushBacklog enc (logFormat w) (writes c) 0 (eventBacklog w) (sentCount w)") auto
  note fs = flushBacklog_spec [OF fl]
  show ?thesis
  proof (cases r)
    case (Some i)
    with c fl fs show ?thesis by (auto simp: connected_def)
  next
    case None
    let ?w = "w\<lparr>currentRetry := retryBase, sentCount := sent, eventBacklog := []\<rparr>"
    obtain w1 f1 e1 where sl: "sendingLoop enc os (eventBuffer w) ?w = (w1, f1, e1)"
      by (cases "sendingLoop enc os (eventBuffer w) ?w") auto
    have e: "eventBacklog ?w = []" "logFormat ?w = logFormat w" "currentRetry ?w = retryBase"
      by simp_all
    note ss = sendingLoop_spec [OF sl, unfolded e]
    from c fl None sl have eq: "w' = w1" "again = f1"
      "es = [DialTimeout (networkType a) a dialTimeout True,
             Printf (ConnectionEstablished a (length (eventBacklog w)))]
            @ setKeepAlive a c @ fes @ [Printf (BacklogSent a)] @ e1
            @ (if f1 then [Close] else [])"
      by (auto simp: connected_def)
    from ss have "length (eventBacklog w1) \<le> 1" by (auto split: if_splits)
    with ss fs eq show ?thesis by auto
  qed
qed

lemma connectLoop_bounded:
  "length (eventBacklog w) \<le> 10000 \<Longrightarrow>
   length (eventBacklog (fst (connectLoop enc a rounds w))) \<le> 10000"
proof (induction rounds arbitrary: w)
  case Nil
  then show ?case by simp
next
  case (Cons rd rounds)
  show ?case
  proof (cases rd)
    case (DialFail n)
    have "length (eventBacklog (fst (dialFailed a n w))) \<le> 10000"
      using dialFailed_spec [of a n w] drainLoop_bounded [OF Cons.prems, of n "eventBuffer w" 0]
      by simp
    from Cons.IH [OF this] DialFail show ?thesis by (simp add: split_beta)
  next
    case (DialOk c)
    obtain w1 again es1 where cn: "connected enc a c w = (w1, again, es1)"
      by (cases "connected enc a c w") auto
    from connected_frame [OF cn] Cons.prems have b: "length (eventBacklog w1) \<le> 10000"
      by (auto simp: max_def split: if_splits)
    from Cons.IH [OF b] b cn DialOk show ?thesis by (simp add: split_beta)
  qed
qed

lemma connectLoop_backoff:
  "currentRetry w = min (2 ^ k * second) maxRetry \<Longrightarrow>
   waitsOf (snd (connectLoop enc a rounds w))
     = backoffSpec k (map snd (dialsOf (snd (connectLoop enc a rounds w))))
   \<and> (\<forall>d \<in> set (dialsOf (snd (connectLoop enc a rounds w))). fst d = dialTimeout)"
proof (induction rounds arbitrary: w k)
  case Nil
  then show ?case by simp
next
  case (Cons rd rounds)
  show ?case
  proof (cases rd)
    case (DialFail n)
    have "currentRetry (fst (dialFailed a n w))
            = (if maxRetry < wrap64 (currentRetry w * 2) then maxRetry
               else wrap64 (currentRetry w * 2))"
      using dialFailed_spec [of a n w] by blast
    also have "\<dots> = min (2 ^ Suc k * second) maxRetry"
      unfolding Cons.prems by (rule backoff_step)
    finally have cr: "currentRetry (fst (dialFailed a n w)) = min (2 ^ Suc k * second) maxRetry" .
    have d: "dialsOf (snd (dialFailed a n w)) = [(dialTimeout, False)]"
      and wt: "waitsOf (snd (dialFailed a n w)) = [min (2 ^ k * second) maxRetry]"
      using dialFailed_spec [of a n w] Cons.prems by simp_all
    from Cons.IH [OF cr] DialFail d wt show ?thesis
      by (simp add: split_beta second_def maxRetry_def)
  next
    case (DialOk c)
    obtain w1 again es1 where cn: "connected enc a c w = (w1, again, es1)"
      by (cases "connected enc a c w") auto
    from connected_frame [OF cn] have "currentRetry w1 = min (2 ^ 0 * second) maxRetry"
      by (simp add: retryBase_def second_def maxRetry_def)
    from Cons.IH [OF this] connected_frame [OF cn] cn DialOk show ?thesis
      by (simp add: split_beta)
  qed
qed

lemma map_Receive_proj [simp]:
  "dialsOf (map Receive xs) = []" "waitsOf (map Receive xs) = []"
  by (induction xs) simp_all


text \<open>
  Claim C3. Where the backlog holds at most 10000 events before a drain, it holds at most
  10000 after every number of received events, and it is then the backlog before the drain
  followed by the events received, in their order, without its first \<open>2000 * k\<close> events,
  where \<open>k = (length before + number received - 8001) div 2000\<close> is the number of times
  the backlog reached 10001 events: the drain evicts in batches of 2000 and never one event
  at a time. In every case the backlog after the drain is the fold over the events
  received of the step of lines 286-303: append, and drop the 2000 oldest of the 10001
  (8001 remain) when the length exceeds 10000. A drain step on a backlog of 10000 events
  continues with that backlog without its 2000 oldest events and records the eviction;
  below that it continues with the backlog and the event, and records nothing. So the
  backlog is always a suffix of the arrival order. The bound holds after every run of the
  worker, which starts with an empty backlog.
\<close>

theorem backlog_bounded_suffix:
  "(length (eventBacklog w) \<le> 10000 \<longrightarrow>
      length (eventBacklog (fst (drainLoop n queue w dc))) \<le> 10000
      \<and> length (fst (appendBacklog (eventBacklog w) fn)) \<le> 10000
      \<and> (length (eventBacklog w) = 10000 \<longrightarrow>
           appendBacklog (eventBacklog w) fn
             = (drop 2000 (eventBacklog w @ [fn]), [Printf (BacklogOverflow 2000 8001)]))
      \<and> (length (eventBacklog w) < 10000 \<longrightarrow>
           appendBacklog (eventBacklog w) fn = (eventBacklog w @ [fn], []))
      \<and> eventBacklog (fst (drainLoop n queue w dc))
          = drop (2000 * ((length (eventBacklog w) + length (take n queue) - 8001) div 2000))
              (eventBacklog w @ take n queue)
      \<and> (length (eventBacklog w) = 10000 \<longrightarrow>
           drainLoop (Suc n) (fn # queue) w dc
             = (case drainLoop n queue
                       (w\<lparr>eventBacklog := drop 2000 (eventBacklog w @ [fn])\<rparr>) (dc + 1) of
                  (w', es) \<Rightarrow> (w', Receive fn # Printf (BacklogOverflow 2000 8001) # es)))
      \<and> (length (eventBacklog w) < 10000 \<longrightarrow>
           drainLoop (Suc n) (fn # queue) w dc
             = (case drainLoop n queue (w\<lparr>eventBacklog := eventBacklog w @ [fn]\<rparr>) (dc + 1) of
                  (w', es) \<Rightarrow> (w', Receive fn # es))))
   \<and> eventBacklog (fst (drainLoop n queue w dc))
       = foldl (\<lambda>backlog fn. if 10000 < length (backlog @ [fn])
                               then drop 2000 (backlog @ [fn]) else backlog @ [fn])
           (eventBacklog w) (take n queue)
   \<and> suffix (eventBacklog (fst (drainLoop n queue w dc))) (eventBacklog w @ take n queue)
   \<and> receivesOf (snd (drainLoop n queue w dc)) = take n queue
   \<and> eventBuffer (fst (drainLoop n queue w dc)) = drop n queue
   \<and> length (eventBacklog (fst (manageConnectionAndSend enc logAddr rounds l))) \<le> 10000"
proof -
  have "length (eventBacklog (fst (manageConnectionAndSend enc logAddr rounds l))) \<le> 10000"
    using connectLoop_bounded [of "startWorker l" enc logAddr rounds]
    by (simp add: manageConnectionAndSend_def startWorker_def)
  moreover have "length (eventBacklog w) = 10000 \<Longrightarrow>
      appendBacklog (eventBacklog w) fn
        = (drop 2000 (eventBacklog w @ [fn]), [Printf (BacklogOverflow 2000 8001)])"
    by (simp add: appendBacklog_def)
  moreover have "length (eventBacklog w) < 10000 \<Longrightarrow>
      appendBacklog (eventBacklog w) fn = (eventBacklog w @ [fn], [])"
    by (simp add: appendBacklog_def)
  ultimately show ?thesis
    using drainLoop_bounded [of w n queue dc] drainLoop_suffix [of n queue w dc]
      drainLoop_frame [of n queue w dc] appendBacklog_bounded [of "eventBacklog w" fn]
      drainLoop_closed [of w n queue dc] drainLoop_fold [of n queue w dc]
      drainLoop_step_full [of w n fn queue dc] drainLoop_step_room [of w n fn queue dc]
    by blast
qed


theorem backlog_bounded_suffix_witness:
  "eventBacklog (fst (drainLoop 2 [ev ''new1'', ev ''new2'']
       \<lparr>counter = 0, logFormat = FormatText, eventBuffer = [], bufferSize = 100000,
        sentCount = 0, eventBacklog = replicate 10000 (ev ''old''), currentRetry = 1000000000\<rparr> 0))
     = replicate 8000 (ev ''old'') @ [ev ''new1'', ev ''new2'']
   \<and> eventBacklog (fst (drainLoop 2 [ev ''new1'', ev ''new2'']
       \<lparr>counter = 0, logFormat = FormatText, eventBuffer = [], bufferSize = 100000,
        sentCount = 0, eventBacklog = [ev ''old''], currentRetry = 1000000000\<rparr> 0))
     = [ev ''old'', ev ''new1'', ev ''new2'']
   \<and> appendBacklog (replicate 10000 (ev ''old'')) (ev ''new'')
     = (drop 2000 (replicate 10000 (ev ''old'') @ [ev ''new'']),
        [Printf (BacklogOverflow 2000 8001)])
   \<and> length (fst (appendBacklog (replicate 10000 (ev ''old'')) (ev ''new''))) \<le> 10000
   \<and> appendBacklog [ev ''old''] (ev ''new'') = ([ev ''old'', ev ''new''], [])"
  using backlog_bounded_suffix [where w =
      "\<lparr>counter = 0, logFormat = FormatText, eventBuffer = [], bufferSize = 100000,
        sentCount = 0, eventBacklog = replicate 10000 (ev ''old''), currentRetry = 1000000000\<rparr>"
      and fn = "ev ''new''" and n = 2 and queue = "[ev ''new1'', ev ''new2'']" and dc = 0]
    backlog_bounded_suffix [where w =
      "\<lparr>counter = 0, logFormat = FormatText, eventBuffer = [], bufferSize = 100000,
        sentCount = 0, eventBacklog = [ev ''old''], currentRetry = 1000000000\<rparr>"
      and fn = "ev ''new''" and n = 2 and queue = "[ev ''new1'', ev ''new2'']" and dc = 0]
  by simp


text \<open>
  Claim C4. In every run of the worker the delays it waits after failed dials are those of
  \<open>backoffSpec\<close> for the outcomes of its dials: one second at first, doubled after each
  further failed dial in a row, at most thirty seconds, and one second again after a
  successful dial. Every dial has a timeout of five seconds. Round by round: the worker
  starts with one second; a failed round waits the current delay and leaves the smaller of
  twice that delay and thirty seconds; a round with a successful dial leaves one second.
\<close>

theorem reconnect_backoff:
  "(case manageConnectionAndSend enc logAddr rounds l of
      (w', es) \<Rightarrow>
        waitsOf es = backoffSpec 0 (map snd (dialsOf es))
        \<and> (\<forall>d \<in> set (dialsOf es). fst d = 5 * 1000000000))
   \<and> currentRetry (startWorker l) = 1000000000
   \<and> (0 < currentRetry w \<and> currentRetry w \<le> 30 * 1000000000 \<longrightarrow>
        currentRetry (fst (dialFailed logAddr n w)) = min (2 * currentRetry w) (30 * 1000000000)
        \<and> waitsOf (snd (dialFailed logAddr n w)) = [currentRetry w])
   \<and> currentRetry (fst (connected enc logAddr c w)) = 1000000000"
proof -
  have a: "case manageConnectionAndSend enc logAddr rounds l of
      (w', es) \<Rightarrow>
        waitsOf es = backoffSpec 0 (map snd (dialsOf es))
        \<and> (\<forall>d \<in> set (dialsOf es). fst d = 5 * 1000000000)"
  proof (cases "logAddr = []")
    case True
    then show ?thesis
      by (simp add: manageConnectionAndSend_def)
  next
    case False
    have "currentRetry (startWorker l) = min (2 ^ 0 * second) maxRetry"
      by (simp add: startWorker_def retryBase_def second_def maxRetry_def)
    from connectLoop_backoff [OF this, of enc logAddr rounds] False show ?thesis
      by (simp add: manageConnectionAndSend_def split_beta dialTimeout_def second_def)
  qed
  have b: "currentRetry (startWorker l) = 1000000000"
    by (simp add: startWorker_def retryBase_def second_def)
  have c: "0 < currentRetry w \<and> currentRetry w \<le> 30 * 1000000000 \<Longrightarrow>
        currentRetry (fst (dialFailed logAddr n w)) = min (2 * currentRetry w) (30 * 1000000000)
        \<and> waitsOf (snd (dialFailed logAddr n w)) = [currentRetry w]"
  proof -
    assume h: "0 < currentRetry w \<and> currentRetry w \<le> 30 * 1000000000"
    then have "wrap64 (currentRetry w * 2) = currentRetry w * 2"
      by (intro wrap64_id) simp_all
    with dialFailed_spec [of logAddr n w] show ?thesis
      by (simp add: maxRetry_def second_def min_def)
  qed
  have d: "currentRetry (fst (connected enc logAddr c w)) = 1000000000"
    using connected_frame [of enc logAddr c w]
    by (cases "connected enc logAddr c w") (simp add: retryBase_def second_def)
  from a b c d show ?thesis by blast
qed

theorem reconnect_backoff_witness:
  "waitsOf (snd (manageConnectionAndSend textOnly ''collector:9000''
       [DialFail 0, DialFail 0, DialOk \<lparr>keepAliveOk = True, keepAlivePeriodOk = True, writes = []\<rparr>,
        DialFail 0]
       \<lparr>counter = 0, logFormat = FormatText, eventBuffer = [], bufferSize = 100000,
        sentCount = 0\<rparr>))
     = [1000000000, 2000000000]
   \<and> dialsOf (snd (manageConnectionAndSend textOnly ''collector:9000''
       [DialFail 0, DialFail 0, DialOk \<lparr>keepAliveOk = True, keepAlivePeriodOk = True, writes = []\<rparr>,
        DialFail 0]
       \<lparr>counter = 0, logFormat = FormatText, eventBuffer = [], bufferSize = 100000,
        sentCount = 0\<rparr>))
     = [(5000000000, False), (5000000000, False), (5000000000, True)]
   \<and> currentRetry (fst (dialFailed ''collector:9000'' 0
       \<lparr>counter = 0, logFormat = FormatText, eventBuffer = [], bufferSize = 100000,
        sentCount = 0, eventBacklog = [], currentRetry = 16000000000\<rparr>)) = 30000000000"
proof -
  have d: "dialsOf (snd (manageConnectionAndSend textOnly ''collector:9000''
       [DialFail 0, DialFail 0, DialOk \<lparr>keepAliveOk = True, keepAlivePeriodOk = True, writes = []\<rparr>,
        DialFail 0]
       \<lparr>counter = 0, logFormat = FormatText, eventBuffer = [], bufferSize = 100000,
        sentCount = 0\<rparr>))
     = [(5000000000, False), (5000000000, False), (5000000000, True)]"
    by (simp add: manageConnectionAndSend_def startWorker_def dialFailed_def drainDone_def
          connected_def dialTimeout_def second_def)
  show ?thesis
    using reconnect_backoff [where enc = textOnly and logAddr = "''collector:9000''"
       and rounds = "[DialFail 0, DialFail 0, DialOk \<lparr>keepAliveOk = True, keepAlivePeriodOk = True, writes = []\<rparr>,
        DialFail 0]"
       and l = "\<lparr>counter = 0, logFormat = FormatText, eventBuffer = [], bufferSize = 100000,
        sentCount = 0\<rparr>"
       and w = "\<lparr>counter = 0, logFormat = FormatText, eventBuffer = [], bufferSize = 100000,
        sentCount = 0, eventBacklog = [], currentRetry = 16000000000\<rparr>" and n = 0] d
    by (simp add: split_beta)
qed

text \<open>Text and debug encodings never fail, so no event is skipped in these formats.\<close>

lemma encode_text_debug:
  "encode enc FormatText fn = Some (FuncCall_String fn @ [CHR 0x0A])"
  "encode enc FormatDebug fn = Some (debugSprintf enc fn)"
  by (simp_all add: encode_def)

text \<open>
  A run: the first dial fails while two of three events arrive, the second dial succeeds.
  All three events reach the collector in their order.
\<close>

lemma worker_example:
  "okWrites (snd (manageConnectionAndSend textOnly ''collector:9000''
       [DialFail 2, DialOk \<lparr>keepAliveOk = True, keepAlivePeriodOk = True, writes = []\<rparr>]
       \<lparr>counter = 0, logFormat = FormatText, eventBuffer = [ev ''a'', ev ''b'', ev ''c''],
        bufferSize = 100000, sentCount = 0\<rparr>))
     = [''a()'' @ [CHR 0x0A], ''b()'' @ [CHR 0x0A], ''c()'' @ [CHR 0x0A]]
   \<and> receivesOf (snd (manageConnectionAndSend textOnly ''collector:9000''
       [DialFail 2, DialOk \<lparr>keepAliveOk = True, keepAlivePeriodOk = True, writes = []\<rparr>]
       \<lparr>counter = 0, logFormat = FormatText, eventBuffer = [ev ''a'', ev ''b'', ev ''c''],
        bufferSize = 100000, sentCount = 0\<rparr>))
     = [ev ''a'', ev ''b'', ev ''c'']"
  by (simp add: manageConnectionAndSend_def startWorker_def dialFailed_def drainDone_def
        appendBacklog_def connected_def writeTo_def okWrites_def FuncCall_String_def ev_def
        numeral_2_eq_2)




subsection \<open>Destination classification\<close>

lemma Contains_single: "Contains s [c] \<longleftrightarrow> c \<in> set s"
  by (induction s) (auto simp: HasPrefix_def)

text \<open>
  Claim C8. A destination string is classified as a stream-socket address exactly when it
  contains a colon and neither a slash nor a backslash. Every path-like string (one with a
  slash or a backslash) is not a socket address: \<open>init\<close> gives it to the file worker, and
  the socket worker would dial it as a local domain socket.
\<close>

theorem isSocketAddress_iff:
  "(isSocketAddress addr \<longleftrightarrow>
      CHR '':'' \<in> set addr \<and> CHR ''/'' \<notin> set addr \<and> CHR 0x5C \<notin> set addr)
   \<and> (CHR ''/'' \<in> set addr \<or> CHR 0x5C \<in> set addr \<longrightarrow>
        \<not> isSocketAddress addr \<and> initMode addr = FileMode \<and> networkType addr = ''unix'')
   \<and> (isSocketAddress addr \<longrightarrow> initMode addr = SocketMode \<and> networkType addr = ''tcp'')"
proof -
  have iff: "isSocketAddress addr \<longleftrightarrow>
      CHR '':'' \<in> set addr \<and> CHR ''/'' \<notin> set addr \<and> CHR 0x5C \<notin> set addr"
    by (simp add: isSocketAddress_def Contains_single)
  have ne: "CHR ''/'' \<in> set addr \<or> CHR 0x5C \<in> set addr \<or> CHR '':'' \<in> set addr \<Longrightarrow> addr \<noteq> []"
    by auto
  show ?thesis
    using iff ne by (auto simp: initMode_def networkType_def Contains_single)
qed

theorem isSocketAddress_iff_witness:
  "isSocketAddress ''localhost:8080'' \<and> initMode ''localhost:8080'' = SocketMode
   \<and> networkType ''localhost:8080'' = ''tcp''
   \<and> \<not> isSocketAddress ''/tmp/log.sock'' \<and> initMode ''/tmp/log.sock'' = FileMode
   \<and> networkType ''/tmp/log.sock'' = ''unix''"
  using isSocketAddress_iff [of "''localhost:8080''"] isSocketAddress_iff [of "''/tmp/log.sock''"]
  by simp

end
